theory Spec2Isabelle
  imports Complex_Main "HOL-Library.Word" "HOL-Library.Sublist"
begin

section \<open>JavaScript values used by server.js\<close>

text \<open>
  A JavaScript string is modelled as the list of its Unicode code points. Every test the
  program makes on a character (white space, line terminators, ASCII letters, digits,
  \<open>=\<close>) concerns a code point of the Basic Multilingual Plane, so the split of an astral
  code point into two UTF-16 code units is not observable by it.
\<close>

type_synonym jsstring = "nat list"

definition js :: "string \<Rightarrow> jsstring" where
  "js s = map of_char s"

text \<open>The bytes of an ASCII text, for the files of the examples.\<close>

definition ascii :: "string \<Rightarrow> 8 word list" where
  "ascii s = map of_char s"

text \<open>
  A JavaScript number is \<open>NaN\<close>, an infinity, or a finite value. A finite double is a
  rational number and is modelled by that rational; the two zeros are identified (the
  program never divides and \<open>===\<close> does not tell them apart).
\<close>

datatype jsnum = NaN | NegInf | Fin rat | PosInf

text \<open>
  What the program throws: an \<open>Error\<close> of its own, or a \<open>TypeError\<close>, a \<open>RangeError\<close> or a
  system error of the platform, each with its message.
\<close>

datatype error = Error jsstring | TypeError jsstring | RangeError jsstring | SystemError jsstring

text \<open>The comparison \<open>a <= b\<close> on numbers: false as soon as one of them is \<open>NaN\<close>.\<close>

fun js_le :: "jsnum \<Rightarrow> jsnum \<Rightarrow> bool" where
  "js_le NaN _ = False"
| "js_le _ NaN = False"
| "js_le NegInf _ = True"
| "js_le _ PosInf = True"
| "js_le (Fin a) (Fin b) = (a \<le> b)"
| "js_le (Fin a) NegInf = False"
| "js_le PosInf (Fin b) = False"
| "js_le PosInf NegInf = False"

text \<open>\<open>Math.min(a, b)\<close> and \<open>Math.max(a, b)\<close>: \<open>NaN\<close> as soon as one argument is.\<close>

definition Math_min :: "jsnum \<Rightarrow> jsnum \<Rightarrow> jsnum" where
  "Math_min a b = (if a = NaN \<or> b = NaN then NaN else if js_le a b then a else b)"

definition Math_max :: "jsnum \<Rightarrow> jsnum \<Rightarrow> jsnum" where
  "Math_max a b = (if a = NaN \<or> b = NaN then NaN else if js_le a b then b else a)"

text \<open>
  The binary \<open>-\<close> of the language. The difference of two finite doubles is the exact
  difference rounded to a double, and an infinity when that is out of range: \<open>rnd\<close> stands
  for this rounding of the platform's arithmetic, from the exact value to the number the
  operation returns. It is a parameter, and what is proved holds for every rounding.
\<close>

fun js_sub :: "(rat \<Rightarrow> jsnum) \<Rightarrow> jsnum \<Rightarrow> jsnum \<Rightarrow> jsnum" where
  "js_sub rnd NaN _ = NaN"
| "js_sub rnd _ NaN = NaN"
| "js_sub rnd (Fin a) (Fin b) = rnd (a - b)"
| "js_sub rnd PosInf PosInf = NaN"
| "js_sub rnd NegInf NegInf = NaN"
| "js_sub rnd PosInf _ = PosInf"
| "js_sub rnd NegInf _ = NegInf"
| "js_sub rnd (Fin a) PosInf = NegInf"
| "js_sub rnd (Fin a) NegInf = PosInf"

text \<open>
  Two roundings for the examples. Where the differences are small integers, each is a
  double and the subtraction returns it as it is. \<open>2^53 + 1\<close> is not a double: it lies
  half-way between the doubles \<open>2^53\<close> and \<open>2^53 + 2\<close>, and is rounded to the even one,
  \<open>2^53\<close>.
\<close>

definition no_rounding :: "rat \<Rightarrow> jsnum" where
  "no_rounding q = Fin q"

definition rounding_at_2_53 :: "rat \<Rightarrow> jsnum" where
  "rounding_at_2_53 q = (if q = 2 ^ 53 + 1 then Fin (2 ^ 53) else Fin q)"

text \<open>
  The binary \<open>*\<close> of the language. The one product the program forms is
  \<open>nozzleSize * 0.5\<close>, and the half of a double is a double (short of underflow), so the
  product of two finite values is the exact one.
\<close>

fun js_mul :: "jsnum \<Rightarrow> jsnum \<Rightarrow> jsnum" where
  "js_mul NaN _ = NaN"
| "js_mul _ NaN = NaN"
| "js_mul (Fin a) (Fin b) = Fin (a * b)"
| "js_mul (Fin a) PosInf = (if a = 0 then NaN else if 0 < a then PosInf else NegInf)"
| "js_mul (Fin a) NegInf = (if a = 0 then NaN else if 0 < a then NegInf else PosInf)"
| "js_mul PosInf (Fin b) = (if b = 0 then NaN else if 0 < b then PosInf else NegInf)"
| "js_mul NegInf (Fin b) = (if b = 0 then NaN else if 0 < b then NegInf else PosInf)"
| "js_mul PosInf PosInf = PosInf"
| "js_mul NegInf NegInf = PosInf"
| "js_mul PosInf NegInf = NegInf"
| "js_mul NegInf PosInf = NegInf"

section \<open>getSize: extents of a vertex list\<close>

text \<open>A vertex is the three-element array \<open>[x, y, z]\<close> the readers push.\<close>

type_synonym vertex = "jsnum \<times> jsnum \<times> jsnum"

definition vx :: "vertex \<Rightarrow> jsnum" where "vx v = fst v"
definition vy :: "vertex \<Rightarrow> jsnum" where "vy v = fst (snd v)"
definition vz :: "vertex \<Rightarrow> jsnum" where "vz v = snd (snd v)"

record bounds =
  minX :: jsnum
  maxX :: jsnum
  minY :: jsnum
  maxY :: jsnum
  minZ :: jsnum
  maxZ :: jsnum

text \<open>The object getSize returns; \<open>dim_x\<close>, \<open>dim_y\<close> and \<open>dim_z\<close> are its fields \<open>x\<close>, \<open>y\<close>, \<open>z\<close>.\<close>

record dimensions =
  dim_x :: jsnum
  dim_y :: jsnum
  dim_z :: jsnum
  vertexCount :: nat

text \<open>The \<open>for (const [x, y, z] of verts)\<close> loop of getSize, on the six running bounds.\<close>

fun getSize_loop :: "bounds \<Rightarrow> vertex list \<Rightarrow> bounds" where
  "getSize_loop b [] = b"
| "getSize_loop b ((x, y, z) # verts) =
     getSize_loop
       \<lparr> minX = Math_min (minX b) x, maxX = Math_max (maxX b) x,
         minY = Math_min (minY b) y, maxY = Math_max (maxY b) y,
         minZ = Math_min (minZ b) z, maxZ = Math_max (maxZ b) z \<rparr> verts"

definition getSize :: "(rat \<Rightarrow> jsnum) \<Rightarrow> vertex list \<Rightarrow> error + dimensions" where
  "getSize rnd verts =
     (if length verts = 0 then Inl (Error (js ''No vertices found''))
      else
        let b = getSize_loop
                  \<lparr> minX = PosInf, maxX = NegInf, minY = PosInf, maxY = NegInf,
                    minZ = PosInf, maxZ = NegInf \<rparr> verts
        in Inr \<lparr> dim_x = js_sub rnd (maxX b) (minX b),
                 dim_y = js_sub rnd (maxY b) (minY b),
                 dim_z = js_sub rnd (maxZ b) (minZ b),
                 vertexCount = length verts \<rparr>)"

text \<open>
  What the maximum and the minimum of a sequence of numbers are: an element of the
  sequence that no element exceeds (resp. that exceeds no element). A sequence that holds
  \<open>NaN\<close> has neither, since \<open>NaN\<close> compares with nothing.
\<close>

definition is_maximum :: "jsnum list \<Rightarrow> jsnum \<Rightarrow> bool" where
  "is_maximum xs m \<longleftrightarrow> m \<in> set xs \<and> (\<forall>v \<in> set xs. js_le v m)"

definition is_minimum :: "jsnum list \<Rightarrow> jsnum \<Rightarrow> bool" where
  "is_minimum xs m \<longleftrightarrow> m \<in> set xs \<and> (\<forall>v \<in> set xs. js_le m v)"

text \<open>
  The extent the claim speaks of, for one axis: the maximum minus the minimum of the
  coordinates, with the subtraction of the language; \<open>NaN\<close> when a coordinate is \<open>NaN\<close>.
\<close>

definition axis_extent :: "(rat \<Rightarrow> jsnum) \<Rightarrow> jsnum list \<Rightarrow> jsnum \<Rightarrow> bool" where
  "axis_extent rnd xs e \<longleftrightarrow>
     (if NaN \<in> set xs then e = NaN
      else \<exists>hi lo. is_maximum xs hi \<and> is_minimum xs lo \<and> e = js_sub rnd hi lo)"

section \<open>getMaterialSettings and generatePrusaCommand\<close>

record material_settings =
  extruder :: jsnum
  bed :: jsnum
  firstLayerTemp :: jsnum
  coolingFanSpeed :: jsnum
  retractionLength :: jsnum
  retractionSpeed :: jsnum

text \<open>The own properties of the object literal \<open>settings\<close>.\<close>

definition settings :: "(jsstring \<times> material_settings) list" where
  "settings =
    [(js ''PLA'',   \<lparr> extruder = Fin 210, bed = Fin 60, firstLayerTemp = Fin 215,
                    coolingFanSpeed = Fin 100, retractionLength = Fin 2, retractionSpeed = Fin 40 \<rparr>),
     (js ''ABS'',   \<lparr> extruder = Fin 250, bed = Fin 100, firstLayerTemp = Fin 255,
                    coolingFanSpeed = Fin 30, retractionLength = Fin 1, retractionSpeed = Fin 40 \<rparr>),
     (js ''PETG'',  \<lparr> extruder = Fin 240, bed = Fin 80, firstLayerTemp = Fin 245,
                    coolingFanSpeed = Fin 50, retractionLength = Fin 3, retractionSpeed = Fin 40 \<rparr>),
     (js ''TPU'',   \<lparr> extruder = Fin 220, bed = Fin 50, firstLayerTemp = Fin 225,
                    coolingFanSpeed = Fin 80, retractionLength = Fin (1/2), retractionSpeed = Fin 25 \<rparr>),
     (js ''PC'',    \<lparr> extruder = Fin 280, bed = Fin 100, firstLayerTemp = Fin 285,
                    coolingFanSpeed = Fin 40, retractionLength = Fin (3/2), retractionSpeed = Fin 35 \<rparr>),
     (js ''ASA'',   \<lparr> extruder = Fin 250, bed = Fin 80, firstLayerTemp = Fin 255,
                    coolingFanSpeed = Fin 30, retractionLength = Fin 1, retractionSpeed = Fin 40 \<rparr>),
     (js ''PEEK'',  \<lparr> extruder = Fin 400, bed = Fin 120, firstLayerTemp = Fin 405,
                    coolingFanSpeed = Fin 20, retractionLength = Fin 1, retractionSpeed = Fin 30 \<rparr>),
     (js ''Nylon'', \<lparr> extruder = Fin 270, bed = Fin 80, firstLayerTemp = Fin 275,
                    coolingFanSpeed = Fin 60, retractionLength = Fin 2, retractionSpeed = Fin 35 \<rparr>)]"

text \<open>
  \<open>settings[material]\<close> is a property read on an ordinary object: a key that is not an own
  property is looked up in \<open>Object.prototype\<close>, whose members are functions (and, for
  \<open>__proto__\<close>, the prototype object itself). Such a value is truthy, so the \<open>||\<close> does not
  replace it by the default profile, and it has none of the six fields.
\<close>

definition Object_prototype_keys :: "jsstring list" where
  "Object_prototype_keys =
    [js ''constructor'', js ''__defineGetter__'', js ''__defineSetter__'', js ''hasOwnProperty'',
     js ''__lookupGetter__'', js ''__lookupSetter__'', js ''isPrototypeOf'',
     js ''propertyIsEnumerable'', js ''toString'', js ''valueOf'', js ''__proto__'',
     js ''toLocaleString'']"

datatype settings_value = Profile material_settings | PrototypeMember

definition getMaterialSettings :: "jsstring \<Rightarrow> settings_value" where
  "getMaterialSettings material =
     (case map_of settings material of
        Some p \<Rightarrow> Profile p
      | None \<Rightarrow>
          if material \<in> set Object_prototype_keys then PrototypeMember
          else Profile \<lparr> extruder = Fin 210, bed = Fin 60, firstLayerTemp = Fin 215,
                         coolingFanSpeed = Fin 100, retractionLength = Fin 2,
                         retractionSpeed = Fin 40 \<rparr>)"

record config =
  material :: jsstring
  materialType :: jsstring
  nozzleSize :: jsnum
  fillDensity :: jsnum
  supportMaterial :: bool

text \<open>\<open>args.splice(start, 0, item)\<close>: a negative start counts from the end, clamped at 0.\<close>

definition splice_insert :: "'a list \<Rightarrow> int \<Rightarrow> 'a \<Rightarrow> 'a list" where
  "splice_insert args start item =
     (let len = int (length args);
          k = nat (if start < 0 then max (len + start) 0 else min start len)
      in take k args @ [item] @ drop k args)"

text \<open>
  \<open>toStr\<close> stands for \<open>Number.prototype.toString\<close>, the platform's rendering of a number
  (also used by the template literal for the fill density). Reading \<open>.extruder\<close> on a
  member of \<open>Object.prototype\<close> gives \<open>undefined\<close>, and \<open>undefined.toString()\<close> throws.
\<close>

definition generatePrusaCommand ::
  "(jsnum \<Rightarrow> jsstring) \<Rightarrow> config \<Rightarrow> jsstring \<Rightarrow> jsstring \<Rightarrow> error + jsstring list" where
  "generatePrusaCommand toStr config inputFilePath outputFilePath =
     (let materialSettings = getMaterialSettings (material config);
          layerHeight =
            (if js_le (nozzleSize config) (Fin (3/10))
             then Math_max (Fin (1/10)) (js_mul (nozzleSize config) (Fin (1/2)))
             else Fin (2/10))
      in case materialSettings of
           PrototypeMember \<Rightarrow>
             Inl (TypeError (js ''Cannot read properties of undefined (reading 'toString')''))
         | Profile ms \<Rightarrow>
             let args =
               [js ''--nozzle-diameter'', toStr (nozzleSize config),
                js ''--filament-type'',
                  (if materialType config = [] then material config else materialType config),
                js ''--temperature'', toStr (extruder ms),
                js ''--first-layer-temperature'', toStr (firstLayerTemp ms),
                js ''--bed-temperature'', toStr (bed ms),
                js ''--retract-length'', toStr (retractionLength ms),
                js ''--retract-speed'', toStr (retractionSpeed ms),
                js ''--fill-density'', toStr (fillDensity config) @ js ''%'',
                js ''--layer-height'', toStr layerHeight,
                js ''--bed-shape'', js ''0x0,300x0,300x300,0x300'',
                js ''--export-gcode'',
                js ''--output'', outputFilePath,
                inputFilePath]
             in Inr (if supportMaterial config
                     then splice_insert args (-3) (js ''--support-material'')
                     else args))"

text \<open>The configuration of the examples, for a nozzle size and a support-material choice.\<close>

definition example_config :: "jsnum \<Rightarrow> bool \<Rightarrow> config" where
  "example_config nozzle support =
     \<lparr> material = js ''PETG'', materialType = js ''PETG'', nozzleSize = nozzle,
       fillDensity = Fin 20, supportMaterial = support \<rparr>"

text \<open>
  A decimal rendering of numbers in plain notation, used for \<open>toStr\<close> where an example is
  evaluated. It is what \<open>Number.prototype.toString\<close> yields for the integers and the short
  decimal fractions of these examples.
\<close>

fun digit_string :: "nat \<Rightarrow> jsstring" where
  "digit_string n = (if n < 10 then [48 + n] else digit_string (n div 10) @ [48 + n mod 10])"

declare digit_string.simps [simp del]

fun fraction_digits :: "nat \<Rightarrow> rat \<Rightarrow> jsstring" where
  "fraction_digits 0 f = []"
| "fraction_digits (Suc k) f =
     (if f = 0 then []
      else (48 + nat \<lfloor>f * 10\<rfloor>) # fraction_digits k (f * 10 - of_int \<lfloor>f * 10\<rfloor>))"

definition decimal_string :: "jsnum \<Rightarrow> jsstring" where
  "decimal_string v =
     (case v of
        NaN \<Rightarrow> js ''NaN''
      | PosInf \<Rightarrow> js ''Infinity''
      | NegInf \<Rightarrow> js ''-Infinity''
      | Fin q \<Rightarrow>
          (if q < 0 then js ''-'' else []) @ digit_string (nat \<lfloor>\<bar>q\<bar>\<rfloor>) @
          (if \<bar>q\<bar> = of_int \<lfloor>\<bar>q\<bar>\<rfloor> then []
           else js ''.'' @ fraction_digits 17 (\<bar>q\<bar> - of_int \<lfloor>\<bar>q\<bar>\<rfloor>)))"

section \<open>Buffers and DataView\<close>

type_synonym byte = "8 word"
type_synonym buffer = "byte list"

text \<open>The unsigned 32-bit integer stored at an offset, least significant byte first.\<close>

definition le32_at :: "buffer \<Rightarrow> nat \<Rightarrow> nat" where
  "le32_at view byteOffset =
     unat (view ! byteOffset) + 2 ^ 8 * unat (view ! (byteOffset + 1)) +
     2 ^ 16 * unat (view ! (byteOffset + 2)) + 2 ^ 24 * unat (view ! (byteOffset + 3))"

text \<open>
  \<open>view.getUint32(byteOffset, true)\<close>: that integer, or a RangeError when the four bytes do
  not all lie inside the buffer.
\<close>

definition getUint32 :: "buffer \<Rightarrow> nat \<Rightarrow> error + nat" where
  "getUint32 view byteOffset =
     (if length view < byteOffset + 4
      then Inl (RangeError (js ''Offset is outside the bounds of the DataView''))
      else Inr (le32_at view byteOffset))"

text \<open>
  The number an IEEE 754 single-precision bit pattern denotes: sign bit, eight exponent
  bits, 23 fraction bits. Every finite single is a double, so \<open>getFloat32\<close> returns it
  exactly.
\<close>

definition float32_value :: "nat \<Rightarrow> jsnum" where
  "float32_value bits =
     (let s = bits div 2 ^ 31 mod 2; e = bits div 2 ^ 23 mod 256; m = bits mod 2 ^ 23;
          sign = (if s = 1 then - 1 else 1)
      in if e = 255 then (if m = 0 then (if s = 1 then NegInf else PosInf) else NaN)
         else if e = 0 then Fin (sign * of_nat m / 2 ^ 149)
         else if 150 \<le> e then Fin (sign * of_nat (2 ^ 23 + m) * 2 ^ (e - 150))
         else Fin (sign * of_nat (2 ^ 23 + m) / 2 ^ (150 - e)))"

definition getFloat32 :: "buffer \<Rightarrow> nat \<Rightarrow> error + jsnum" where
  "getFloat32 view byteOffset =
     (case getUint32 view byteOffset of
        Inl e \<Rightarrow> Inl e
      | Inr bits \<Rightarrow> Inr (float32_value bits))"

section \<open>readBinarySTL\<close>

text \<open>
  The inner loop \<open>for (let j = 0; j < 3; j++)\<close>, with the number of iterations left, the
  running offset and the vertices pushed so far; it returns the offset and the vertices.
\<close>

fun readBinarySTL_vertices ::
  "buffer \<Rightarrow> nat \<Rightarrow> nat \<Rightarrow> vertex list \<Rightarrow> error + (nat \<times> vertex list)" where
  "readBinarySTL_vertices view 0 offset verts = Inr (offset, verts)"
| "readBinarySTL_vertices view (Suc k) offset verts =
     (case getFloat32 view offset of
        Inl e \<Rightarrow> Inl e
      | Inr x \<Rightarrow>
          (case getFloat32 view (offset + 4) of
             Inl e \<Rightarrow> Inl e
           | Inr y \<Rightarrow>
               (case getFloat32 view (offset + 8) of
                  Inl e \<Rightarrow> Inl e
                | Inr z \<Rightarrow> readBinarySTL_vertices view k (offset + 12) (verts @ [(x, y, z)]))))"

text \<open>The outer loop \<open>for (let i = 0; i < count; i++)\<close>, with the iterations left.\<close>

fun readBinarySTL_loop :: "buffer \<Rightarrow> nat \<Rightarrow> nat \<Rightarrow> vertex list \<Rightarrow> error + vertex list" where
  "readBinarySTL_loop view 0 offset verts = Inr verts"
| "readBinarySTL_loop view (Suc k) offset verts =
     (case readBinarySTL_vertices view 3 (offset + 12) verts of
        Inl e \<Rightarrow> Inl e
      | Inr (offset', verts') \<Rightarrow> readBinarySTL_loop view k (offset' + 2) verts')"

definition readBinarySTL :: "buffer \<Rightarrow> nat \<Rightarrow> error + vertex list" where
  "readBinarySTL ab count = readBinarySTL_loop ab count 84 []"

text \<open>
  The layout of a binary STL file: an 84-byte header, then 50 bytes for each triangle, of
  which bytes 12 to 47 hold three vertices of three singles each. \<open>stored_vertex\<close> is
  vertex \<open>j\<close> of triangle \<open>i\<close> as the file stores it.
\<close>

definition vertex_at :: "buffer \<Rightarrow> nat \<Rightarrow> vertex" where
  "vertex_at view offset =
     (float32_value (le32_at view offset), float32_value (le32_at view (offset + 4)),
      float32_value (le32_at view (offset + 8)))"

definition stored_vertex :: "buffer \<Rightarrow> nat \<Rightarrow> nat \<Rightarrow> vertex" where
  "stored_vertex buf i j = vertex_at buf (84 + 50 * i + 12 + 12 * j)"

section \<open>Text: TextDecoder, trim, split, toLowerCase, Number\<close>

text \<open>
  \<open>new TextDecoder().decode(buf)\<close>: the UTF-8 decoder of the Encoding standard. A byte that
  cannot continue the current sequence ends it with U+FFFD and is then read again as the
  start of a sequence; an unfinished sequence at the end gives U+FFFD; a leading byte
  order mark is dropped. The state is the code point so far, the number of continuation
  bytes still needed and the bounds for the next byte.
\<close>

fun utf8_run :: "nat \<Rightarrow> nat \<Rightarrow> nat \<Rightarrow> nat \<Rightarrow> buffer \<Rightarrow> jsstring" where
  "utf8_run cp needed lo hi [] = (if needed = 0 then [] else [65533])"
| "utf8_run cp needed lo hi (b # bs) =
     (let v = unat b in
      if needed \<noteq> 0 \<and> lo \<le> v \<and> v \<le> hi then
        (if needed = 1 then (cp * 64 + v mod 64) # utf8_run 0 0 128 191 bs
         else utf8_run (cp * 64 + v mod 64) (needed - 1) 128 191 bs)
      else
        (if needed \<noteq> 0 then [65533] else []) @
        (if v < 128 then v # utf8_run 0 0 128 191 bs
         else if 194 \<le> v \<and> v \<le> 223 then utf8_run (v mod 32) 1 128 191 bs
         else if 224 \<le> v \<and> v \<le> 239 then
           utf8_run (v mod 16) 2 (if v = 224 then 160 else 128) (if v = 237 then 159 else 191) bs
         else if 240 \<le> v \<and> v \<le> 244 then
           utf8_run (v mod 8) 3 (if v = 240 then 144 else 128) (if v = 244 then 143 else 191) bs
         else 65533 # utf8_run 0 0 128 191 bs))"

definition TextDecoder_decode :: "buffer \<Rightarrow> jsstring" where
  "TextDecoder_decode buf =
     utf8_run 0 0 128 191 (if take 3 buf = [239, 187, 191] then drop 3 buf else buf)"

text \<open>
  White space for \<open>trim\<close> and for \<open>\s\<close> in a regular expression: the WhiteSpace and
  LineTerminator code points of the language. A \<open>.\<close> in a regular expression matches
  every code point but a line terminator.
\<close>

definition is_whitespace :: "nat \<Rightarrow> bool" where
  "is_whitespace c \<longleftrightarrow>
     c \<in> set [9, 10, 11, 12, 13, 32, 160, 5760, 8232, 8233, 8239, 8287, 12288, 65279]
     \<or> (8192 \<le> c \<and> c \<le> 8202)"

definition is_line_terminator :: "nat \<Rightarrow> bool" where
  "is_line_terminator c \<longleftrightarrow> c \<in> set [10, 13, 8232, 8233]"

definition trim :: "jsstring \<Rightarrow> jsstring" where
  "trim s = rev (dropWhile is_whitespace (rev (dropWhile is_whitespace s)))"

text \<open>
  \<open>s.toLowerCase()\<close>. The ASCII capitals map to the ASCII small letters; U+212A (Kelvin
  sign) maps to \<open>k\<close> and U+0130 to \<open>i\<close> followed by U+0307. These are the only code points
  outside ASCII whose lower case contains an ASCII character. Every other code point
  outside ASCII is mapped by the language to code points outside ASCII and is left as it is
  here: the program compares the result with ASCII words and passes it to \<open>Number\<close>, which
  rejects every code point outside ASCII alike.
\<close>

definition lower_char :: "nat \<Rightarrow> jsstring" where
  "lower_char c =
     (if 65 \<le> c \<and> c \<le> 90 then [c + 32]
      else if c = 8490 then [107]
      else if c = 304 then [105, 775]
      else [c])"

definition toLowerCase :: "jsstring \<Rightarrow> jsstring" where
  "toLowerCase s = concat (map lower_char s)"

text \<open>
  \<open>s.split(sep)\<close> for a one-character separator, with the piece being collected;
  \<open>s.split('\n')\<close> is \<open>split_on 10 s\<close>.
\<close>

fun split_on_from :: "nat \<Rightarrow> jsstring \<Rightarrow> jsstring \<Rightarrow> jsstring list" where
  "split_on_from sep cur [] = [cur]"
| "split_on_from sep cur (c # cs) =
     (if c = sep then cur # split_on_from sep [] cs else split_on_from sep (cur @ [c]) cs)"

definition split_on :: "nat \<Rightarrow> jsstring \<Rightarrow> jsstring list" where
  "split_on sep s = split_on_from sep [] s"

text \<open>
  \<open>s.split(/\s+/)\<close>: the pieces between the maximal runs of white space, with the piece
  being collected. A run at the start or at the end leaves an empty piece there, and the
  empty string gives one empty piece.
\<close>

function split_whitespace_from :: "jsstring \<Rightarrow> jsstring \<Rightarrow> jsstring list" where
  "split_whitespace_from cur [] = [cur]"
| "split_whitespace_from cur (c # cs) =
     (if is_whitespace c then cur # split_whitespace_from [] (dropWhile is_whitespace cs)
      else split_whitespace_from (cur @ [c]) cs)"
  by pat_completeness auto
termination
  by (relation "measure (\<lambda>(cur, s). length s)")
     (auto simp: length_dropWhile_le less_Suc_eq_le)

definition split_whitespace :: "jsstring \<Rightarrow> jsstring list" where
  "split_whitespace s = split_whitespace_from [] s"

text \<open>
  \<open>Number(s)\<close> on a string: the StringNumericLiteral grammar. White space is trimmed; the
  empty string is 0; \<open>0x\<close>, \<open>0o\<close> and \<open>0b\<close> (either case) introduce an unsigned integer in
  base 16, 8 and 2; otherwise an optional sign is followed by \<open>Infinity\<close> or by a decimal
  literal with an optional fraction and an optional exponent; everything else is \<open>NaN\<close>.
  The value is the exact one (no rounding to a double, no overflow to an infinity).
\<close>

definition digit_of :: "nat \<Rightarrow> nat" where
  "digit_of c =
     (if 48 \<le> c \<and> c \<le> 57 then c - 48
      else if 97 \<le> c \<and> c \<le> 102 then c - 87
      else if 65 \<le> c \<and> c \<le> 70 then c - 55
      else 16)"

definition digits_in :: "nat \<Rightarrow> jsstring \<Rightarrow> bool" where
  "digits_in base s \<longleftrightarrow> s \<noteq> [] \<and> list_all (\<lambda>c. digit_of c < base) s"

definition digits_value :: "nat \<Rightarrow> jsstring \<Rightarrow> nat" where
  "digits_value base s = foldl (\<lambda>acc c. acc * base + digit_of c) 0 s"

definition is_digit :: "nat \<Rightarrow> bool" where
  "is_digit c \<longleftrightarrow> 48 \<le> c \<and> c \<le> 57"

text \<open>ExponentPart, or nothing: the exponent, or \<open>None\<close> when the text is neither.\<close>

definition exponent_part :: "jsstring \<Rightarrow> int option" where
  "exponent_part r =
     (case r of
        [] \<Rightarrow> Some 0
      | c # t \<Rightarrow>
          if c = 101 \<or> c = 69 then
            (case t of
               [] \<Rightarrow> None
             | d # ds \<Rightarrow>
                 if d = 43 then (if digits_in 10 ds then Some (int (digits_value 10 ds)) else None)
                 else if d = 45 then (if digits_in 10 ds then Some (- int (digits_value 10 ds)) else None)
                 else (if digits_in 10 t then Some (int (digits_value 10 t)) else None))
          else None)"

definition pow10 :: "int \<Rightarrow> rat" where
  "pow10 e = (if 0 \<le> e then 10 ^ nat e else 1 / 10 ^ nat (- e))"

text \<open>StrUnsignedDecimalLiteral.\<close>

definition unsigned_decimal :: "jsstring \<Rightarrow> jsnum" where
  "unsigned_decimal u =
     (if u = js ''Infinity'' then PosInf
      else
        let ip = takeWhile is_digit u;
            r1 = dropWhile is_digit u;
            has_dot = (take 1 r1 = [46]);
            fp = (if has_dot then takeWhile is_digit (drop 1 r1) else []);
            r2 = (if has_dot then dropWhile is_digit (drop 1 r1) else r1)
        in if ip = [] \<and> fp = [] then NaN
           else (case exponent_part r2 of
                   None \<Rightarrow> NaN
                 | Some ex \<Rightarrow>
                     Fin ((of_nat (digits_value 10 ip) +
                           of_nat (digits_value 10 fp) / 10 ^ length fp) * pow10 ex)))"

definition js_neg :: "jsnum \<Rightarrow> jsnum" where
  "js_neg v = (case v of NaN \<Rightarrow> NaN | PosInf \<Rightarrow> NegInf | NegInf \<Rightarrow> PosInf | Fin q \<Rightarrow> Fin (- q))"

definition Number :: "jsstring \<Rightarrow> jsnum" where
  "Number s =
     (let t = trim s in
      if t = [] then Fin 0
      else if take 1 t = [48] \<and> take 1 (drop 1 t) \<in> set [[120], [88]] then
        (if digits_in 16 (drop 2 t) then Fin (of_nat (digits_value 16 (drop 2 t))) else NaN)
      else if take 1 t = [48] \<and> take 1 (drop 1 t) \<in> set [[111], [79]] then
        (if digits_in 8 (drop 2 t) then Fin (of_nat (digits_value 8 (drop 2 t))) else NaN)
      else if take 1 t = [48] \<and> take 1 (drop 1 t) \<in> set [[98], [66]] then
        (if digits_in 2 (drop 2 t) then Fin (of_nat (digits_value 2 (drop 2 t))) else NaN)
      else if take 1 t = [43] then unsigned_decimal (drop 1 t)
      else if take 1 t = [45] then js_neg (unsigned_decimal (drop 1 t))
      else unsigned_decimal t)"

section \<open>readOBJ, readASCIISTL, readSTL\<close>

text \<open>The \<open>for (const line of lines)\<close> loop of readOBJ, with the vertices pushed so far.\<close>

fun readOBJ_loop :: "vertex list \<Rightarrow> jsstring list \<Rightarrow> vertex list" where
  "readOBJ_loop verts [] = verts"
| "readOBJ_loop verts (line # lines) =
     (let parts = split_whitespace (trim line) in
      if take 1 parts = [js ''v''] \<and> 4 \<le> length parts then
        (let x = Number (parts ! 1); y = Number (parts ! 2); z = Number (parts ! 3) in
         if x \<noteq> NaN \<and> y \<noteq> NaN \<and> z \<noteq> NaN
         then readOBJ_loop (verts @ [(x, y, z)]) lines
         else readOBJ_loop verts lines)
      else readOBJ_loop verts lines)"

definition readOBJ :: "buffer \<Rightarrow> error + vertex list" where
  "readOBJ buf =
     (let txt = TextDecoder_decode buf;
          lines = split_on 10 txt;
          verts = readOBJ_loop [] lines
      in if length verts = 0 then Inl (Error (js ''No valid vertices in OBJ''))
         else Inr verts)"

text \<open>The loop of readASCIISTL; the three coordinates are not tested.\<close>

fun readASCIISTL_loop :: "vertex list \<Rightarrow> jsstring list \<Rightarrow> vertex list" where
  "readASCIISTL_loop verts [] = verts"
| "readASCIISTL_loop verts (line # lines) =
     (let parts = split_whitespace (toLowerCase (trim line)) in
      if take 1 parts = [js ''vertex''] \<and> length parts = 4 then
        readASCIISTL_loop
          (verts @ [(Number (parts ! 1), Number (parts ! 2), Number (parts ! 3))]) lines
      else readASCIISTL_loop verts lines)"

definition readASCIISTL :: "jsstring \<Rightarrow> vertex list" where
  "readASCIISTL txt = readASCIISTL_loop [] (split_on 10 txt)"

definition readSTL :: "buffer \<Rightarrow> error + vertex list" where
  "readSTL buf =
     (let ab = buf;
          binary =
            (if 84 < length ab then
               (case getUint32 ab 80 of
                  Inl e \<Rightarrow> Some (Inl e)
                | Inr triangles \<Rightarrow>
                    if length ab = 84 + triangles * 50 then Some (readBinarySTL ab triangles)
                    else None)
             else None)
      in case binary of
           Some result \<Rightarrow> result
         | None \<Rightarrow>
             (let text = TextDecoder_decode ab in
              if sublist (js ''solid'') (toLowerCase text) \<and>
                 sublist (js ''facet'') (toLowerCase text)
              then Inr (readASCIISTL text)
              else Inl (Error (js ''Not a valid STL file''))))"

text \<open>
  What C10 calls a line that contributes a point: after \<open>trim\<close> and \<open>toLowerCase\<close>, its
  white-space-delimited tokens are \<open>vertex\<close> and exactly three more; the point holds
  \<open>Number\<close> of each of the three.
\<close>

definition is_vertex_line :: "jsstring \<Rightarrow> bool" where
  "is_vertex_line line \<longleftrightarrow>
     (case split_whitespace (toLowerCase (trim line)) of
        [t0, t1, t2, t3] \<Rightarrow> t0 = js ''vertex''
      | _ \<Rightarrow> False)"

definition vertex_of_line :: "jsstring \<Rightarrow> vertex" where
  "vertex_of_line line =
     (let parts = split_whitespace (toLowerCase (trim line))
      in (Number (parts ! 1), Number (parts ! 2), Number (parts ! 3)))"

text \<open>
  What the specification calls an OBJ line that contributes a point: after \<open>trim\<close>, its
  first white-space-delimited token is \<open>v\<close>, at least three more follow, and the first
  three of those are numeric; the point holds \<open>Number\<close> of each of the three.
\<close>

definition is_obj_vertex_line :: "jsstring \<Rightarrow> bool" where
  "is_obj_vertex_line line \<longleftrightarrow>
     (case split_whitespace (trim line) of
        t0 # t1 # t2 # t3 # rest \<Rightarrow>
          t0 = js ''v'' \<and> Number t1 \<noteq> NaN \<and> Number t2 \<noteq> NaN \<and> Number t3 \<noteq> NaN
      | _ \<Rightarrow> False)"

definition obj_vertex_of_line :: "jsstring \<Rightarrow> vertex" where
  "obj_vertex_of_line line =
     (let parts = split_whitespace (trim line)
      in (Number (parts ! 1), Number (parts ! 2), Number (parts ! 3)))"

text \<open>
  What C6 calls containing a token case-insensitively: some stretch of the text equals the
  token, letter by letter, up to the case of ASCII letters. The tokens are in lower case.
\<close>

definition same_letter :: "nat \<Rightarrow> nat \<Rightarrow> bool" where
  "same_letter c t \<longleftrightarrow> c = t \<or> (65 \<le> c \<and> c \<le> 90 \<and> t = c + 32)"

fun prefix_ci :: "jsstring \<Rightarrow> jsstring \<Rightarrow> bool" where
  "prefix_ci [] s = True"
| "prefix_ci (t # ts) [] = False"
| "prefix_ci (t # ts) (c # cs) = (same_letter c t \<and> prefix_ci ts cs)"

fun contains_ci :: "jsstring \<Rightarrow> jsstring \<Rightarrow> bool" where
  "contains_ci tok [] = (tok = [])"
| "contains_ci tok (c # cs) = (prefix_ci tok (c # cs) \<or> contains_ci tok cs)"

text \<open>
  The words for which \<open>toLowerCase\<close> followed by \<open>includes\<close> is that containment: small
  ASCII letters other than \<open>k\<close> (the lower case of U+212A), with no \<open>i\<close> at the end (the first
  half of the lower case of U+0130).
\<close>

fun plain_word :: "jsstring \<Rightarrow> bool" where
  "plain_word [] = True"
| "plain_word (t # ts) =
     (97 \<le> t \<and> t \<le> 122 \<and> t \<noteq> 107 \<and> (t = 105 \<longrightarrow> ts \<noteq> []) \<and> plain_word ts)"

section \<open>The dimensions endpoint\<close>

record uploaded_file =
  buffer :: buffer
  filename :: jsstring
  extension :: jsstring

datatype dimensions_response = Dimensions_ok dimensions | Dimensions_error nat jsstring

definition message :: "error \<Rightarrow> jsstring" where
  "message e = (case e of Error m \<Rightarrow> m | TypeError m \<Rightarrow> m | RangeError m \<Rightarrow> m | SystemError m \<Rightarrow> m)"

text \<open>
  The handler of \<open>POST /api/dimensions\<close>, on the uploaded file (name and bytes, if any) and
  the global \<open>uploadedFile\<close>; it returns the response and the new \<open>uploadedFile\<close>. The
  extension has passed the whitelist when the readers are reached, so the two \<open>if\<close>s that
  pick the reader are one choice. The response holds the object given to \<open>res.json\<close>, before
  it is serialised. The timer set here, which clears \<open>uploadedFile\<close> after 30 minutes, shows
  in the model of the submit handler, as the value \<open>uploadedFile\<close> has later.
\<close>

definition api_dimensions ::
  "(rat \<Rightarrow> jsnum) \<Rightarrow> (jsstring \<times> buffer) option \<Rightarrow> uploaded_file option
     \<Rightarrow> dimensions_response \<times> uploaded_file option" where
  "api_dimensions rnd req_file uploadedFile =
     (case req_file of
        None \<Rightarrow> (Dimensions_error 400 (js ''No file uploaded''), uploadedFile)
      | Some (originalname, file) \<Rightarrow>
          let ext = toLowerCase (last (split_on 46 originalname)) in
          if ext \<notin> set [js ''stl'', js ''obj''] then
            (Dimensions_error 400 (js ''Only STL and OBJ supported, not '' @ ext), uploadedFile)
          else if length file = 0 then
            (Dimensions_error 400 (js ''File is empty or corrupted''), uploadedFile)
          else
            (case (case (if ext = js ''stl'' then readSTL file else readOBJ file) of
                     Inl err \<Rightarrow> Inl err
                   | Inr verts \<Rightarrow> getSize rnd verts) of
               Inl err \<Rightarrow> (Dimensions_error 500 (message err), uploadedFile)
             | Inr dims \<Rightarrow>
                 (Dimensions_ok dims,
                  Some \<lparr> buffer = file, filename = originalname, extension = ext \<rparr>)))"

section \<open>parsePrintTime\<close>

definition time_marker :: jsstring where
  "time_marker = js ''; estimated printing time''"

text \<open>
  \<open>line.match(/; estimated printing time[^=]*=\s*(.+)/)\<close>, by backtracking as the language
  defines it; each function matches the rest of the pattern at the start of its argument and
  returns the text captured by the group, if the match succeeds.

  \<open>match_group\<close> is \<open>(.+)\<close> at the end of the pattern: the longest run of characters that
  are not line terminators, which must not be empty.
  \<open>match_space_group\<close> is \<open>\s*(.+)\<close>: the star first takes the character if it is white
  space, and gives it back if the rest then fails.
  \<open>match_after_marker\<close> is \<open>[^=]*=\s*(.+)\<close>, with the same rule for the star.
  \<open>regex_exec\<close> tries the start positions from left to right.
\<close>

definition match_group :: "jsstring \<Rightarrow> jsstring option" where
  "match_group s =
     (case s of
        [] \<Rightarrow> None
      | c # cs \<Rightarrow> if is_line_terminator c then None
                  else Some (takeWhile (\<lambda>d. \<not> is_line_terminator d) s))"

fun match_space_group :: "jsstring \<Rightarrow> jsstring option" where
  "match_space_group [] = match_group []"
| "match_space_group (c # cs) =
     (if is_whitespace c then
        (case match_space_group cs of
           Some r \<Rightarrow> Some r
         | None \<Rightarrow> match_group (c # cs))
      else match_group (c # cs))"

fun match_after_marker :: "jsstring \<Rightarrow> jsstring option" where
  "match_after_marker [] = None"
| "match_after_marker (c # cs) =
     (if c \<noteq> 61 then
        (case match_after_marker cs of
           Some r \<Rightarrow> Some r
         | None \<Rightarrow> None)
      else match_space_group cs)"

definition match_at :: "jsstring \<Rightarrow> jsstring option" where
  "match_at s =
     (if prefix time_marker s then match_after_marker (drop (length time_marker) s) else None)"

fun regex_exec :: "jsstring \<Rightarrow> jsstring option" where
  "regex_exec [] = match_at []"
| "regex_exec (c # cs) =
     (case match_at (c # cs) of
        Some r \<Rightarrow> Some r
      | None \<Rightarrow> regex_exec cs)"

text \<open>The loop of parsePrintTime; \<open>Unknown\<close> is the value \<open>printTime\<close> starts with.\<close>

fun parsePrintTime_loop :: "jsstring list \<Rightarrow> jsstring" where
  "parsePrintTime_loop [] = js ''Unknown''"
| "parsePrintTime_loop (line # lines) =
     (if sublist time_marker line then
        (case regex_exec line of
           Some captured \<Rightarrow> trim captured
         | None \<Rightarrow> parsePrintTime_loop lines)
      else parsePrintTime_loop lines)"

definition parsePrintTime :: "jsstring \<Rightarrow> jsstring" where
  "parsePrintTime gcodeContent = parsePrintTime_loop (split_on 10 gcodeContent)"

text \<open>
  extractPrintTime as C7 words it: the first line that contains the marker decides; the
  result is the trimmed text that follows the first \<open>=\<close> after the marker.
\<close>

fun after_first :: "jsstring \<Rightarrow> jsstring \<Rightarrow> jsstring option" where
  "after_first w [] = (if w = [] then Some [] else None)"
| "after_first w (c # cs) =
     (if prefix w (c # cs) then Some (drop (length w) (c # cs)) else after_first w cs)"

definition spec_extractPrintTime :: "jsstring \<Rightarrow> jsstring" where
  "spec_extractPrintTime text =
     (case List.find (sublist time_marker) (split_on 10 text) of
        None \<Rightarrow> js ''Unknown''
      | Some line \<Rightarrow>
          (case after_first time_marker line of
             None \<Rightarrow> js ''Unknown''
           | Some rest \<Rightarrow> trim (drop 1 (dropWhile (\<lambda>c. c \<noteq> 61) rest))))"

text \<open>
  What the code takes from one line, said without backtracking: after the first occurrence
  of the marker and the first \<open>=\<close> that follows it, skip white space; if a character is
  left, the result is the trimmed run up to the next line terminator; if only white space
  followed the \<open>=\<close>, the result is empty provided some of it is not a line terminator; in
  every other case the line gives nothing.
\<close>

definition time_of_line :: "jsstring \<Rightarrow> jsstring option" where
  "time_of_line line =
     (case after_first time_marker line of
        None \<Rightarrow> None
      | Some rest \<Rightarrow>
          if 61 \<notin> set rest then None
          else
            let t = drop 1 (dropWhile (\<lambda>c. c \<noteq> 61) rest);
                u = dropWhile is_whitespace t
            in if u \<noteq> [] then Some (trim (takeWhile (\<lambda>d. \<not> is_line_terminator d) u))
               else if list_ex (\<lambda>d. \<not> is_line_terminator d) t then Some []
               else None)"

section \<open>The submit-configuration endpoint, from the staging of the temp files on\<close>

text \<open>
  The file system maps a path to the bytes of the file there. What the handler does not
  decide is a record: which paths refuse to be written or deleted (an open handle, a
  missing permission), what the slicer process does to the files and how it ends, and the
  value the global \<open>uploadedFile\<close> has once the handler has awaited the slicer. The
  handler reads the global again at that point (line 443); while it waited, the timer of
  the dimensions endpoint may have cleared it and another upload may have replaced it.
\<close>

type_synonym filesystem = "jsstring \<Rightarrow> buffer option"

datatype exec_result =
    Exec_ok jsstring jsstring
  | Exec_error jsstring jsstring jsstring

record world =
  write_denied :: "jsstring \<Rightarrow> bool"
  unlink_denied :: "jsstring \<Rightarrow> bool"
  slicer :: "jsstring list \<Rightarrow> filesystem \<Rightarrow> exec_result \<times> filesystem"
  uploadedFile_later :: "uploaded_file option"

definition writeFileSync :: "world \<Rightarrow> jsstring \<Rightarrow> buffer \<Rightarrow> filesystem \<Rightarrow> error + filesystem" where
  "writeFileSync w path data fs =
     (if write_denied w path
      then Inl (SystemError (js ''EPERM: operation not permitted, open '' @ [39] @ path @ [39]))
      else Inr (fs(path := Some data)))"

definition existsSync :: "jsstring \<Rightarrow> filesystem \<Rightarrow> bool" where
  "existsSync path fs \<longleftrightarrow> fs path \<noteq> None"

definition unlinkSync :: "world \<Rightarrow> jsstring \<Rightarrow> filesystem \<Rightarrow> error + filesystem" where
  "unlinkSync w path fs =
     (if fs path = None
      then Inl (SystemError (js ''ENOENT: no such file or directory, unlink '' @ [39] @ path @ [39]))
      else if unlink_denied w path
      then Inl (SystemError (js ''EPERM: operation not permitted, unlink '' @ [39] @ path @ [39]))
      else Inr (fs(path := None)))"

text \<open>\<open>fs.readFileSync(path, 'utf8')\<close>: the bytes decoded as UTF-8, a byte order mark kept.\<close>

definition readFileSync :: "jsstring \<Rightarrow> filesystem \<Rightarrow> error + jsstring" where
  "readFileSync path fs =
     (case fs path of
        None \<Rightarrow> Inl (SystemError (js ''ENOENT: no such file or directory, open '' @ [39] @ path @ [39]))
      | Some data \<Rightarrow> Inr (utf8_run 0 0 128 191 data))"

record processed =
  printTime :: jsstring
  processed_filename :: jsstring

datatype submit_response = Submit_ok processed | Submit_error nat jsstring

datatype log_entry = Cleanup_error error | Slicer_error error

text \<open>
  Lines 404 to 426: the slicer is run and its outcome, success or error (a timeout is an
  error), only stored; then the output file is looked for and read.
\<close>

definition run_slicer ::
  "world \<Rightarrow> jsstring list \<Rightarrow> jsstring \<Rightarrow> filesystem \<Rightarrow> (error + jsstring) \<times> filesystem" where
  "run_slicer w prusaArgs tempOutputFile fs =
     (case slicer w prusaArgs fs of
        (outcome, fs') \<Rightarrow>
          if \<not> existsSync tempOutputFile fs' then
            (Inl (Error (js ''PrusaSlicer did not create output file, try using different input file or settings'')),
             fs')
          else (readFileSync tempOutputFile fs', fs'))"

text \<open>
  The body of the inner \<open>try\<close>: the value it ends with, or what it throws, and the files.
  \<open>uploadedFile\<close> is the global as the handler finds it, before the slicer runs; it is not
  null, which the validation has tested. \<open>statSync\<close> on the file just found only computes
  an unused value. Reading \<open>.filename\<close> on the global after the wait throws when the global
  is null by then.
\<close>

definition submit_try ::
  "world \<Rightarrow> (jsnum \<Rightarrow> jsstring) \<Rightarrow> uploaded_file \<Rightarrow> config \<Rightarrow> jsstring \<Rightarrow> jsstring
     \<Rightarrow> filesystem \<Rightarrow> (error + processed) \<times> filesystem" where
  "submit_try w toStr uploadedFile config tempInputFile tempOutputFile fs =
     (case writeFileSync w tempInputFile (buffer uploadedFile) fs of
        Inl e \<Rightarrow> (Inl e, fs)
      | Inr fs1 \<Rightarrow>
          if \<not> existsSync tempInputFile fs1
          then (Inl (Error (js ''Failed to create temporary input file'')), fs1)
          else
            (case generatePrusaCommand toStr config tempInputFile tempOutputFile of
               Inl e \<Rightarrow> (Inl e, fs1)
             | Inr prusaArgs \<Rightarrow>
                 (case run_slicer w prusaArgs tempOutputFile fs1 of
                    (Inl e, fs2) \<Rightarrow> (Inl e, fs2)
                  | (Inr gcodeContent, fs2) \<Rightarrow>
                      let printTime = parsePrintTime gcodeContent in
                      (case unlinkSync w tempInputFile fs2 of
                         Inl e \<Rightarrow> (Inl e, fs2)
                       | Inr fs3 \<Rightarrow>
                           (case unlinkSync w tempOutputFile fs3 of
                              Inl e \<Rightarrow> (Inl e, fs3)
                            | Inr fs4 \<Rightarrow>
                                (case uploadedFile_later w of
                                   None \<Rightarrow>
                                     (Inl (TypeError
                                        (js ''Cannot read properties of null (reading 'filename')'')),
                                      fs4)
                                 | Some current \<Rightarrow>
                                     (Inr \<lparr> printTime = printTime,
                                            processed_filename = filename current \<rparr>,
                                      fs4)))))))"

text \<open>The clean-up at the head of the \<open>catch\<close>, inside its own \<open>try\<close>.\<close>

definition catch_cleanup ::
  "world \<Rightarrow> jsstring \<Rightarrow> jsstring \<Rightarrow> filesystem \<Rightarrow> filesystem \<times> log_entry list" where
  "catch_cleanup w tempInputFile tempOutputFile fs =
     (case (if existsSync tempInputFile fs then unlinkSync w tempInputFile fs else Inr fs) of
        Inl cleanupError \<Rightarrow> (fs, [Cleanup_error cleanupError])
      | Inr fs1 \<Rightarrow>
          (case (if existsSync tempOutputFile fs1 then unlinkSync w tempOutputFile fs1 else Inr fs1) of
             Inl cleanupError \<Rightarrow> (fs1, [Cleanup_error cleanupError])
           | Inr fs2 \<Rightarrow> (fs2, [])))"

text \<open>
  The handler from line 372 on: the response, the files it leaves and what it wrote with
  \<open>console.error\<close>. The two temp file names are parameters; the request has passed the
  validation and \<open>config\<close> holds the parsed fields. Of the success response only
  \<open>printTime\<close> and \<open>filename\<close> are kept.
\<close>

definition submit_configuration ::
  "world \<Rightarrow> (jsnum \<Rightarrow> jsstring) \<Rightarrow> uploaded_file \<Rightarrow> config \<Rightarrow> jsstring \<Rightarrow> jsstring
     \<Rightarrow> filesystem \<Rightarrow> submit_response \<times> filesystem \<times> log_entry list" where
  "submit_configuration w toStr uploadedFile config tempInputFile tempOutputFile fs =
     (case submit_try w toStr uploadedFile config tempInputFile tempOutputFile fs of
        (Inr processedConfig, fs') \<Rightarrow> (Submit_ok processedConfig, fs', [])
      | (Inl prusaError, fs') \<Rightarrow>
          (case catch_cleanup w tempInputFile tempOutputFile fs' of
             (fs'', entries) \<Rightarrow>
               (Submit_error 500 (js ''PrusaSlicer processing failed: '' @ message prusaError),
                fs'', entries @ [Slicer_error prusaError])))"


section \<open>Properties of getSize\<close>

lemma js_le_refl: "a \<noteq> NaN \<Longrightarrow> js_le a a"
  by (cases a) auto

lemma js_le_trans: "js_le a b \<Longrightarrow> js_le b c \<Longrightarrow> js_le a c"
  by (cases a; cases b; cases c) auto

lemma js_le_total: "a \<noteq> NaN \<Longrightarrow> b \<noteq> NaN \<Longrightarrow> js_le a b \<or> js_le b a"
  by (cases a; cases b) auto

lemma js_le_NaN_right [simp]: "\<not> js_le a NaN"
  by (cases a) auto

lemma js_le_NegInf: "js_le a NegInf \<Longrightarrow> a = NegInf"
  by (cases a) auto

lemma js_le_PosInf: "js_le PosInf a \<Longrightarrow> a = PosInf"
  by (cases a) auto

lemma foldl_max_NaN: "foldl Math_max NaN xs = NaN"
  by (induction xs) (auto simp: Math_max_def)

lemma foldl_min_NaN: "foldl Math_min NaN xs = NaN"
  by (induction xs) (auto simp: Math_min_def)

lemma foldl_max_has_NaN: "NaN \<in> set xs \<Longrightarrow> foldl Math_max m xs = NaN"
  by (induction xs arbitrary: m) (auto simp: Math_max_def foldl_max_NaN)

lemma foldl_min_has_NaN: "NaN \<in> set xs \<Longrightarrow> foldl Math_min m xs = NaN"
  by (induction xs arbitrary: m) (auto simp: Math_min_def foldl_min_NaN)

text \<open>The running maximum, started from any number, is the maximum of what it has seen.\<close>

lemma foldl_max_greatest:
  "NaN \<notin> set xs \<Longrightarrow> m \<noteq> NaN \<Longrightarrow> is_maximum (m # xs) (foldl Math_max m xs)"
proof (induction xs arbitrary: m)
  case Nil
  then show ?case by (simp add: is_maximum_def js_le_refl)
next
  case (Cons x xs)
  let ?m = "Math_max m x"
  from Cons.prems have x: "x \<noteq> NaN" and xs: "NaN \<notin> set xs" by auto
  have m': "?m \<noteq> NaN" using Cons.prems x by (simp add: Math_max_def)
  have ih: "is_maximum (?m # xs) (foldl Math_max ?m xs)" by (rule Cons.IH [OF xs m'])
  have ge: "js_le m ?m \<and> js_le x ?m" and mem: "?m = m \<or> ?m = x"
    using Cons.prems(2) x js_le_total [of m x] by (auto simp: Math_max_def js_le_refl)
  show ?case using ih ge mem unfolding is_maximum_def
    by (auto intro: js_le_trans)
qed

lemma foldl_min_least:
  "NaN \<notin> set xs \<Longrightarrow> m \<noteq> NaN \<Longrightarrow> is_minimum (m # xs) (foldl Math_min m xs)"
proof (induction xs arbitrary: m)
  case Nil
  then show ?case by (simp add: is_minimum_def js_le_refl)
next
  case (Cons x xs)
  let ?m = "Math_min m x"
  from Cons.prems have x: "x \<noteq> NaN" and xs: "NaN \<notin> set xs" by auto
  have m': "?m \<noteq> NaN" using Cons.prems x by (simp add: Math_min_def)
  have ih: "is_minimum (?m # xs) (foldl Math_min ?m xs)" by (rule Cons.IH [OF xs m'])
  have le: "js_le ?m m \<and> js_le ?m x" and mem: "?m = m \<or> ?m = x"
    using Cons.prems(2) x js_le_total [of m x] by (auto simp: Math_min_def js_le_refl)
  show ?case using ih le mem unfolding is_minimum_def
    by (auto intro: js_le_trans)
qed

text \<open>Started from \<open>-Infinity\<close> on a non-empty sequence, the start value drops out.\<close>

lemma running_max:
  assumes "xs \<noteq> []" "NaN \<notin> set xs"
  shows "is_maximum xs (foldl Math_max NegInf xs)"
proof -
  let ?r = "foldl Math_max NegInf xs"
  have m: "is_maximum (NegInf # xs) ?r" using assms by (intro foldl_max_greatest) auto
  obtain x where x: "x \<in> set xs" using assms(1) by (cases xs) auto
  have "?r \<in> set xs"
  proof (cases "?r = NegInf")
    case True
    with m x have "js_le x NegInf" by (auto simp: is_maximum_def)
    then show ?thesis using x True by (auto dest: js_le_NegInf)
  next
    case False
    with m show ?thesis by (auto simp: is_maximum_def)
  qed
  with m show ?thesis by (auto simp: is_maximum_def)
qed

lemma running_min:
  assumes "xs \<noteq> []" "NaN \<notin> set xs"
  shows "is_minimum xs (foldl Math_min PosInf xs)"
proof -
  let ?r = "foldl Math_min PosInf xs"
  have m: "is_minimum (PosInf # xs) ?r" using assms by (intro foldl_min_least) auto
  obtain x where x: "x \<in> set xs" using assms(1) by (cases xs) auto
  have "?r \<in> set xs"
  proof (cases "?r = PosInf")
    case True
    with m x have "js_le PosInf x" by (auto simp: is_minimum_def)
    then show ?thesis using x True by (auto dest: js_le_PosInf)
  next
    case False
    with m show ?thesis by (auto simp: is_minimum_def)
  qed
  with m show ?thesis by (auto simp: is_minimum_def)
qed

lemma getSize_loop_folds:
  "getSize_loop b verts =
     \<lparr> minX = foldl Math_min (minX b) (map vx verts), maxX = foldl Math_max (maxX b) (map vx verts),
       minY = foldl Math_min (minY b) (map vy verts), maxY = foldl Math_max (maxY b) (map vy verts),
       minZ = foldl Math_min (minZ b) (map vz verts), maxZ = foldl Math_max (maxZ b) (map vz verts) \<rparr>"
  by (induction b verts rule: getSize_loop.induct) (simp_all add: vx_def vy_def vz_def)

lemma axis_extent_fold:
  "xs \<noteq> [] \<Longrightarrow>
   axis_extent rnd xs (js_sub rnd (foldl Math_max NegInf xs) (foldl Math_min PosInf xs))"
  unfolding axis_extent_def
  using running_max [of xs] running_min [of xs]
  by (auto simp: foldl_max_has_NaN foldl_min_has_NaN)

text \<open>
  C2. On zero points getSize fails with an error. On every non-empty point sequence it
  returns dimensions whose vertexCount is the number of points and whose x, y and z
  extents are the maximum minus the minimum of that coordinate over the sequence, the
  difference being the one the subtraction of the language returns, whatever its rounding.
\<close>

theorem getSize_extents:
  "getSize rnd [] = Inl (Error (js ''No vertices found'')) \<and>
   (verts \<noteq> [] \<longrightarrow>
     (\<exists>d. getSize rnd verts = Inr d \<and> vertexCount d = length verts \<and>
          axis_extent rnd (map vx verts) (dim_x d) \<and>
          axis_extent rnd (map vy verts) (dim_y d) \<and>
          axis_extent rnd (map vz verts) (dim_z d)))"
  by (simp add: getSize_def getSize_loop_folds axis_extent_fold Let_def)

text \<open>
  Two runs: small integers, whose differences are exact, with a \<open>NaN\<close> and an infinity;
  and the points \<open>2^53\<close> and \<open>-1\<close> on the x axis under a rounding that, as that of doubles
  does, returns \<open>2^53\<close> for the difference \<open>2^53 + 1\<close>.
\<close>

theorem getSize_extents_witness:
  "[(Fin 1, Fin 5, Fin 2), (Fin 4, Fin (-2), Fin 2), (Fin 3, Fin 0, Fin 7)] \<noteq> [] \<and>
   getSize no_rounding [(Fin 1, Fin 5, Fin 2), (Fin 4, Fin (-2), Fin 2), (Fin 3, Fin 0, Fin 7)]
     = Inr \<lparr> dim_x = Fin 3, dim_y = Fin 7, dim_z = Fin 5, vertexCount = 3 \<rparr> \<and>
   axis_extent no_rounding [Fin 1, Fin 4, Fin 3] (Fin 3) \<and>
   axis_extent no_rounding [Fin 5, Fin (-2), Fin 0] (Fin 7) \<and>
   axis_extent no_rounding [Fin 2, Fin 2, Fin 7] (Fin 5) \<and>
   getSize no_rounding [(NaN, Fin 1, Fin 2), (Fin 3, Fin 4, PosInf)]
     = Inr \<lparr> dim_x = NaN, dim_y = Fin 3, dim_z = PosInf, vertexCount = 2 \<rparr> \<and>
   axis_extent no_rounding [NaN, Fin 3] NaN \<and> axis_extent no_rounding [Fin 1, Fin 4] (Fin 3) \<and>
   axis_extent no_rounding [Fin 2, PosInf] PosInf \<and>
   getSize rounding_at_2_53
       [(Fin (2 ^ 53), Fin 0, Fin 0), (Fin (-1), Fin 0, Fin 0)]
     = Inr \<lparr> dim_x = Fin (2 ^ 53), dim_y = Fin 0, dim_z = Fin 0, vertexCount = 2 \<rparr> \<and>
   axis_extent rounding_at_2_53
       [Fin (2 ^ 53), Fin (-1)] (Fin (2 ^ 53))"
proof -
  have run: "getSize no_rounding
       [(Fin 1, Fin 5, Fin 2), (Fin 4, Fin (-2), Fin 2), (Fin 3, Fin 0, Fin 7)]
     = Inr \<lparr> dim_x = Fin 3, dim_y = Fin 7, dim_z = Fin 5, vertexCount = 3 \<rparr>"
    by (simp add: getSize_def Math_min_def Math_max_def no_rounding_def)
  have run2: "getSize no_rounding [(NaN, Fin 1, Fin 2), (Fin 3, Fin 4, PosInf)]
     = Inr \<lparr> dim_x = NaN, dim_y = Fin 3, dim_z = PosInf, vertexCount = 2 \<rparr>"
    by (simp add: getSize_def Math_min_def Math_max_def no_rounding_def)
  have run3: "getSize rounding_at_2_53
       [(Fin (2 ^ 53), Fin 0, Fin 0), (Fin (-1), Fin 0, Fin 0)]
     = Inr \<lparr> dim_x = Fin (2 ^ 53), dim_y = Fin 0, dim_z = Fin 0, vertexCount = 2 \<rparr>"
    by (simp add: getSize_def Math_min_def Math_max_def rounding_at_2_53_def)
  show ?thesis
    using run3 getSize_extents [of no_rounding
        "[(Fin 1, Fin 5, Fin 2), (Fin 4, Fin (-2), Fin 2), (Fin 3, Fin 0, Fin 7)]"]
      getSize_extents [of no_rounding "[(NaN, Fin 1, Fin 2), (Fin 3, Fin 4, PosInf)]"]
      getSize_extents [of rounding_at_2_53
        "[(Fin (2 ^ 53), Fin 0, Fin 0), (Fin (-1), Fin 0, Fin 0)]"]
    by (simp add: run run2 vx_def vy_def vz_def)
qed

section \<open>Properties of generatePrusaCommand\<close>

lemma percent_not_flag: "s @ js ''%'' \<noteq> js ''--support-material''"
proof
  assume "s @ js ''%'' = js ''--support-material''"
  then have "last (s @ js ''%'') = last (js ''--support-material'')" by simp
  then show False by (simp add: js_def)
qed

text \<open>The decimal rendering of the examples never yields the flag text.\<close>

lemma digit_string_head: "digit_string n \<noteq> [] \<and> 48 \<le> hd (digit_string n)"
proof (induction n rule: digit_string.induct)
  case (1 n)
  show ?case
  proof (cases "n < 10")
    case True
    then have "digit_string n = [48 + n]" by (subst digit_string.simps) simp
    then show ?thesis by simp
  next
    case False
    with 1 have ih: "digit_string (n div 10) \<noteq> [] \<and> 48 \<le> hd (digit_string (n div 10))" by simp
    from False have eq: "digit_string n = digit_string (n div 10) @ [48 + n mod 10]"
      by (subst digit_string.simps) simp
    from ih show ?thesis unfolding eq by simp
  qed
qed

lemma decimal_string_not_flag: "decimal_string v \<noteq> js ''--support-material''"
proof (cases v)
  case NaN
  then show ?thesis by (simp add: decimal_string_def js_def)
next
  case NegInf
  then show ?thesis by (simp add: decimal_string_def js_def)
next
  case PosInf
  then show ?thesis by (simp add: decimal_string_def js_def)
next
  case (Fin q)
  obtain d ds where ds: "digit_string (nat \<lfloor>\<bar>q\<bar>\<rfloor>) = d # ds" and d: "48 \<le> d"
    using digit_string_head [of "nat \<lfloor>\<bar>q\<bar>\<rfloor>"] by (cases "digit_string (nat \<lfloor>\<bar>q\<bar>\<rfloor>)") auto
  show ?thesis
  proof
    assume eq: "decimal_string v = js ''--support-material''"
    have "take 2 (decimal_string v) = (if q < 0 then [45, d] else take 2 (d # ds @
        (if \<bar>q\<bar> = of_int \<lfloor>\<bar>q\<bar>\<rfloor> then []
           else js ''.'' @ fraction_digits 17 (\<bar>q\<bar> - of_int \<lfloor>\<bar>q\<bar>\<rfloor>))))"
      using Fin ds by (simp add: decimal_string_def js_def)
    moreover have "take 2 (js ''--support-material'') = [45, 45]" by (simp add: js_def)
    ultimately have "(if q < 0 then [45, d] else take 2 (d # ds @
        (if \<bar>q\<bar> = of_int \<lfloor>\<bar>q\<bar>\<rfloor> then []
           else js ''.'' @ fraction_digits 17 (\<bar>q\<bar> - of_int \<lfloor>\<bar>q\<bar>\<rfloor>)))) = [45, 45]"
      using eq by simp
    with d show False by (auto split: if_splits)
  qed
qed

text \<open>A command is built for every material name that is not a member of \<open>Object.prototype\<close>.\<close>

lemma generatePrusaCommand_total:
  "material cfg \<notin> set Object_prototype_keys \<Longrightarrow>
   \<exists>args. generatePrusaCommand toStr cfg inp out = Inr args"
  by (auto simp: generatePrusaCommand_def getMaterialSettings_def Let_def
           split: option.splits)

lemma generatePrusaCommand_profile:
  "generatePrusaCommand toStr cfg inp out = Inr args \<Longrightarrow>
   \<exists>ms. getMaterialSettings (material cfg) = Profile ms"
  by (cases "getMaterialSettings (material cfg)") (simp_all add: generatePrusaCommand_def)

lemma generatePrusaCommand_args:
  assumes "generatePrusaCommand toStr cfg inp out = Inr args"
    and "getMaterialSettings (material cfg) = Profile ms"
  shows "args =
      [js ''--nozzle-diameter'', toStr (nozzleSize cfg),
       js ''--filament-type'', (if materialType cfg = [] then material cfg else materialType cfg),
       js ''--temperature'', toStr (extruder ms),
       js ''--first-layer-temperature'', toStr (firstLayerTemp ms),
       js ''--bed-temperature'', toStr (bed ms),
       js ''--retract-length'', toStr (retractionLength ms),
       js ''--retract-speed'', toStr (retractionSpeed ms),
       js ''--fill-density'', toStr (fillDensity cfg) @ js ''%'',
       js ''--layer-height'',
         toStr (if js_le (nozzleSize cfg) (Fin (3/10))
                then Math_max (Fin (1/10)) (js_mul (nozzleSize cfg) (Fin (1/2)))
                else Fin (2/10)),
       js ''--bed-shape'', js ''0x0,300x0,300x300,0x300'',
       js ''--export-gcode''] @
      (if supportMaterial cfg then [js ''--support-material''] else []) @
      [js ''--output'', out, inp]"
  using assms by (auto simp: generatePrusaCommand_def Let_def splice_insert_def)

text \<open>
  C8 (as amended). Every argument sequence that is built is twenty elements followed by
  the export flag and then [output flag, outputPath, inputPath], in that order; when
  supportMaterial is true the support-material flag stands immediately before that triple,
  between the export flag and the output flag, and the triple keeps its order. When
  supportMaterial is false the flag is absent from the sequence unless the filament type
  passed through (materialType, or material when materialType is empty) is itself the flag
  text, and then it is present. The two paths and the renderings of numbers are taken not
  to be the flag text: the handler passes paths that are the temporary directory joined
  with a file name, and the rendering of a number never starts with two hyphens.
\<close>

theorem generatePrusaCommand_tail:
  assumes "generatePrusaCommand toStr cfg inp out = Inr args"
  shows "\<exists>pre. length pre = 20 \<and>
           args = pre @ [js ''--export-gcode''] @
                  (if supportMaterial cfg then [js ''--support-material''] else []) @
                  [js ''--output'', out, inp] \<and>
           (\<not> supportMaterial cfg \<and>
            out \<noteq> js ''--support-material'' \<and> inp \<noteq> js ''--support-material'' \<and>
            (\<forall>v. toStr v \<noteq> js ''--support-material'')
            \<longrightarrow> (js ''--support-material'' \<in> set args \<longleftrightarrow>
                 (if materialType cfg = [] then material cfg else materialType cfg)
                   = js ''--support-material''))"
proof -
  from generatePrusaCommand_profile [OF assms] obtain ms
    where ms: "getMaterialSettings (material cfg) = Profile ms" ..
  have args: "args =
      [js ''--nozzle-diameter'', toStr (nozzleSize cfg),
       js ''--filament-type'', (if materialType cfg = [] then material cfg else materialType cfg),
       js ''--temperature'', toStr (extruder ms),
       js ''--first-layer-temperature'', toStr (firstLayerTemp ms),
       js ''--bed-temperature'', toStr (bed ms),
       js ''--retract-length'', toStr (retractionLength ms),
       js ''--retract-speed'', toStr (retractionSpeed ms),
       js ''--fill-density'', toStr (fillDensity cfg) @ js ''%'',
       js ''--layer-height'',
         toStr (if js_le (nozzleSize cfg) (Fin (3/10))
                then Math_max (Fin (1/10)) (js_mul (nozzleSize cfg) (Fin (1/2)))
                else Fin (2/10)),
       js ''--bed-shape'', js ''0x0,300x0,300x300,0x300'',
       js ''--export-gcode''] @
      (if supportMaterial cfg then [js ''--support-material''] else []) @
      [js ''--output'', out, inp]"
    by (rule generatePrusaCommand_args [OF assms ms])
  have lits: "js ''--nozzle-diameter'' \<noteq> js ''--support-material''"
    "js ''--filament-type'' \<noteq> js ''--support-material''"
    "js ''--temperature'' \<noteq> js ''--support-material''"
    "js ''--first-layer-temperature'' \<noteq> js ''--support-material''"
    "js ''--bed-temperature'' \<noteq> js ''--support-material''"
    "js ''--retract-length'' \<noteq> js ''--support-material''"
    "js ''--retract-speed'' \<noteq> js ''--support-material''"
    "js ''--fill-density'' \<noteq> js ''--support-material''"
    "js ''--layer-height'' \<noteq> js ''--support-material''"
    "js ''--bed-shape'' \<noteq> js ''--support-material''"
    "js ''0x0,300x0,300x300,0x300'' \<noteq> js ''--support-material''"
    "js ''--export-gcode'' \<noteq> js ''--support-material''"
    "js ''--output'' \<noteq> js ''--support-material''"
    by (simp_all add: js_def)
  show ?thesis
  proof (intro exI [of _ "take 20 args"] conjI impI)
    show "length (take 20 args) = 20" by (simp add: args)
    show "args = take 20 args @ [js ''--export-gcode''] @
                  (if supportMaterial cfg then [js ''--support-material''] else []) @
                  [js ''--output'', out, inp]" by (simp add: args)
    assume h: "\<not> supportMaterial cfg \<and>
            out \<noteq> js ''--support-material'' \<and> inp \<noteq> js ''--support-material'' \<and>
            (\<forall>v. toStr v \<noteq> js ''--support-material'')"
    then have ne: "\<And>v. js ''--support-material'' \<noteq> toStr v" by metis
    from h lits lits [symmetric] ne percent_not_flag [symmetric]
    show "js ''--support-material'' \<in> set args \<longleftrightarrow>
          (if materialType cfg = [] then material cfg else materialType cfg)
            = js ''--support-material''"
      by (auto simp: args)
  qed
qed

theorem generatePrusaCommand_tail_witness:
  "generatePrusaCommand decimal_string (example_config (Fin (4/10)) False)
      (js ''in.stl'') (js ''out.gcode'')
    = Inr [js ''--nozzle-diameter'', js ''0.4'', js ''--filament-type'', js ''PETG'',
           js ''--temperature'', js ''240'', js ''--first-layer-temperature'', js ''245'',
           js ''--bed-temperature'', js ''80'', js ''--retract-length'', js ''3'',
           js ''--retract-speed'', js ''40'', js ''--fill-density'', js ''20%'',
           js ''--layer-height'', js ''0.2'', js ''--bed-shape'', js ''0x0,300x0,300x300,0x300'',
           js ''--export-gcode'', js ''--output'', js ''out.gcode'', js ''in.stl''] \<and>
   js ''--support-material'' \<notin> set
          [js ''--nozzle-diameter'', js ''0.4'', js ''--filament-type'', js ''PETG'',
           js ''--temperature'', js ''240'', js ''--first-layer-temperature'', js ''245'',
           js ''--bed-temperature'', js ''80'', js ''--retract-length'', js ''3'',
           js ''--retract-speed'', js ''40'', js ''--fill-density'', js ''20%'',
           js ''--layer-height'', js ''0.2'', js ''--bed-shape'', js ''0x0,300x0,300x300,0x300'',
           js ''--export-gcode'', js ''--output'', js ''out.gcode'', js ''in.stl''] \<and>
   generatePrusaCommand decimal_string (example_config (Fin (4/10)) True)
      (js ''in.stl'') (js ''out.gcode'')
    = Inr [js ''--nozzle-diameter'', js ''0.4'', js ''--filament-type'', js ''PETG'',
           js ''--temperature'', js ''240'', js ''--first-layer-temperature'', js ''245'',
           js ''--bed-temperature'', js ''80'', js ''--retract-length'', js ''3'',
           js ''--retract-speed'', js ''40'', js ''--fill-density'', js ''20%'',
           js ''--layer-height'', js ''0.2'', js ''--bed-shape'', js ''0x0,300x0,300x300,0x300'',
           js ''--export-gcode'', js ''--support-material'', js ''--output'', js ''out.gcode'',
           js ''in.stl''] \<and>
   (\<exists>pre. length pre = 20 \<and>
      [js ''--nozzle-diameter'', js ''0.4'', js ''--filament-type'', js ''PETG'',
           js ''--temperature'', js ''240'', js ''--first-layer-temperature'', js ''245'',
           js ''--bed-temperature'', js ''80'', js ''--retract-length'', js ''3'',
           js ''--retract-speed'', js ''40'', js ''--fill-density'', js ''20%'',
           js ''--layer-height'', js ''0.2'', js ''--bed-shape'', js ''0x0,300x0,300x300,0x300'',
           js ''--export-gcode'', js ''--support-material'', js ''--output'', js ''out.gcode'',
           js ''in.stl'']
       = pre @ [js ''--export-gcode'', js ''--support-material'', js ''--output'',
                js ''out.gcode'', js ''in.stl''])"
proof -
  have off: "generatePrusaCommand decimal_string (example_config (Fin (4/10)) False)
      (js ''in.stl'') (js ''out.gcode'')
    = Inr [js ''--nozzle-diameter'', js ''0.4'', js ''--filament-type'', js ''PETG'',
           js ''--temperature'', js ''240'', js ''--first-layer-temperature'', js ''245'',
           js ''--bed-temperature'', js ''80'', js ''--retract-length'', js ''3'',
           js ''--retract-speed'', js ''40'', js ''--fill-density'', js ''20%'',
           js ''--layer-height'', js ''0.2'', js ''--bed-shape'', js ''0x0,300x0,300x300,0x300'',
           js ''--export-gcode'', js ''--output'', js ''out.gcode'', js ''in.stl'']"
    by code_simp
  have on: "generatePrusaCommand decimal_string (example_config (Fin (4/10)) True)
      (js ''in.stl'') (js ''out.gcode'')
    = Inr [js ''--nozzle-diameter'', js ''0.4'', js ''--filament-type'', js ''PETG'',
           js ''--temperature'', js ''240'', js ''--first-layer-temperature'', js ''245'',
           js ''--bed-temperature'', js ''80'', js ''--retract-length'', js ''3'',
           js ''--retract-speed'', js ''40'', js ''--fill-density'', js ''20%'',
           js ''--layer-height'', js ''0.2'', js ''--bed-shape'', js ''0x0,300x0,300x300,0x300'',
           js ''--export-gcode'', js ''--support-material'', js ''--output'', js ''out.gcode'',
           js ''in.stl'']"
    by code_simp
  have hyp: "\<not> supportMaterial (example_config (Fin (4/10)) False) \<and>
      js ''out.gcode'' \<noteq> js ''--support-material'' \<and>
      js ''in.stl'' \<noteq> js ''--support-material'' \<and>
      (\<forall>v. decimal_string v \<noteq> js ''--support-material'')"
    using decimal_string_not_flag by (simp add: example_config_def js_def)
  have filament: "(if materialType (example_config (Fin (4/10)) False) = []
       then material (example_config (Fin (4/10)) False)
       else materialType (example_config (Fin (4/10)) False)) \<noteq> js ''--support-material''"
    by (simp add: example_config_def js_def)
  from generatePrusaCommand_tail [OF off] hyp filament
  have absent: "js ''--support-material'' \<notin> set
          [js ''--nozzle-diameter'', js ''0.4'', js ''--filament-type'', js ''PETG'',
           js ''--temperature'', js ''240'', js ''--first-layer-temperature'', js ''245'',
           js ''--bed-temperature'', js ''80'', js ''--retract-length'', js ''3'',
           js ''--retract-speed'', js ''40'', js ''--fill-density'', js ''20%'',
           js ''--layer-height'', js ''0.2'', js ''--bed-shape'', js ''0x0,300x0,300x300,0x300'',
           js ''--export-gcode'', js ''--output'', js ''out.gcode'', js ''in.stl'']"
    by blast
  from generatePrusaCommand_tail [OF on]
  have shape: "\<exists>pre. length pre = 20 \<and>
      [js ''--nozzle-diameter'', js ''0.4'', js ''--filament-type'', js ''PETG'',
           js ''--temperature'', js ''240'', js ''--first-layer-temperature'', js ''245'',
           js ''--bed-temperature'', js ''80'', js ''--retract-length'', js ''3'',
           js ''--retract-speed'', js ''40'', js ''--fill-density'', js ''20%'',
           js ''--layer-height'', js ''0.2'', js ''--bed-shape'', js ''0x0,300x0,300x300,0x300'',
           js ''--export-gcode'', js ''--support-material'', js ''--output'', js ''out.gcode'',
           js ''in.stl'']
       = pre @ [js ''--export-gcode'', js ''--support-material'', js ''--output'',
                js ''out.gcode'', js ''in.stl'']"
    by (simp add: example_config_def)
  from off on absent shape show ?thesis by (intro conjI)
qed

text \<open>
  With supportMaterial false and the material type \<open>--support-material\<close>, which the
  handler accepts as it accepts every non-empty material type, a command is built and the
  flag text is in it, as the value of \<open>--filament-type\<close>.
\<close>

theorem generatePrusaCommand_flag_counterexample:
  "\<not> supportMaterial
       \<lparr> material = js ''PLA'', materialType = js ''--support-material'',
         nozzleSize = Fin (4/10), fillDensity = Fin 20, supportMaterial = False \<rparr> \<and>
   generatePrusaCommand decimal_string
       \<lparr> material = js ''PLA'', materialType = js ''--support-material'',
         nozzleSize = Fin (4/10), fillDensity = Fin 20, supportMaterial = False \<rparr>
       (js ''in.stl'') (js ''out.gcode'')
    = Inr [js ''--nozzle-diameter'', js ''0.4'', js ''--filament-type'', js ''--support-material'',
           js ''--temperature'', js ''210'', js ''--first-layer-temperature'', js ''215'',
           js ''--bed-temperature'', js ''60'', js ''--retract-length'', js ''2'',
           js ''--retract-speed'', js ''40'', js ''--fill-density'', js ''20%'',
           js ''--layer-height'', js ''0.2'', js ''--bed-shape'', js ''0x0,300x0,300x300,0x300'',
           js ''--export-gcode'', js ''--output'', js ''out.gcode'', js ''in.stl''] \<and>
   js ''--support-material'' \<in> set (projr (generatePrusaCommand decimal_string
       \<lparr> material = js ''PLA'', materialType = js ''--support-material'',
         nozzleSize = Fin (4/10), fillDensity = Fin 20, supportMaterial = False \<rparr>
       (js ''in.stl'') (js ''out.gcode'')))"
  by code_simp

text \<open>
  C9. In every command that is built, the value that follows \<open>--layer-height\<close> is the
  rendering of 0.2 unless nozzleSize \<open>\<le>\<close> 0.3, and of max(0.1, nozzleSize \<open>\<times>\<close> 0.5) when
  nozzleSize \<open>\<le>\<close> 0.3; nozzle sizes 0.2, 0.3 and 0.4 give 0.1, 0.15 and 0.2.
\<close>

theorem generatePrusaCommand_layer_height:
  assumes "generatePrusaCommand toStr cfg inp out = Inr args"
  shows "args ! 16 = js ''--layer-height'' \<and>
         (js_le (nozzleSize cfg) (Fin (3/10)) \<longrightarrow>
            args ! 17 = toStr (Math_max (Fin (1/10)) (js_mul (nozzleSize cfg) (Fin (1/2))))) \<and>
         (\<not> js_le (nozzleSize cfg) (Fin (3/10)) \<longrightarrow> args ! 17 = toStr (Fin (2/10))) \<and>
         (\<forall>q. nozzleSize cfg = Fin q \<and> q \<le> 3/10 \<longrightarrow>
            args ! 17 = toStr (Fin (max (1/10) (q * (1/2))))) \<and>
         (nozzleSize cfg = Fin (2/10) \<longrightarrow> args ! 17 = toStr (Fin (1/10))) \<and>
         (nozzleSize cfg = Fin (3/10) \<longrightarrow> args ! 17 = toStr (Fin (15/100))) \<and>
         (nozzleSize cfg = Fin (4/10) \<longrightarrow> args ! 17 = toStr (Fin (2/10)))"
proof -
  from generatePrusaCommand_profile [OF assms] obtain ms
    where ms: "getMaterialSettings (material cfg) = Profile ms" ..
  note args = generatePrusaCommand_args [OF assms ms]
  have flag: "args ! 16 = js ''--layer-height''"
    by (subst args) simp
  have val: "args ! 17 = toStr (if js_le (nozzleSize cfg) (Fin (3/10))
                then Math_max (Fin (1/10)) (js_mul (nozzleSize cfg) (Fin (1/2)))
                else Fin (2/10))"
    by (subst args) simp
  have rat: "q \<le> 3/10 \<Longrightarrow> Math_max (Fin (1/10)) (js_mul (Fin q) (Fin (1/2))) = Fin (max (1/10) (q * (1/2)))" for q
    by (simp add: Math_max_def max_def)
  show ?thesis
    using flag val rat by (auto simp: Math_max_def)
qed

theorem generatePrusaCommand_layer_height_witness:
  "js_le (Fin (2/10)) (Fin (3/10)) \<and> js_le (Fin (3/10)) (Fin (3/10)) \<and>
   \<not> js_le (Fin (4/10)) (Fin (3/10)) \<and>
   map_sum id (\<lambda>args. args ! 17)
     (generatePrusaCommand decimal_string (example_config (Fin (2/10)) False)
        (js ''in.obj'') (js ''out.gcode'')) = Inr (js ''0.1'') \<and>
   map_sum id (\<lambda>args. args ! 17)
     (generatePrusaCommand decimal_string (example_config (Fin (3/10)) False)
        (js ''in.obj'') (js ''out.gcode'')) = Inr (js ''0.15'') \<and>
   map_sum id (\<lambda>args. args ! 17)
     (generatePrusaCommand decimal_string (example_config (Fin (4/10)) False)
        (js ''in.obj'') (js ''out.gcode'')) = Inr (js ''0.2'')"
proof -
  have total: "\<exists>args. generatePrusaCommand decimal_string (example_config v False)
      (js ''in.obj'') (js ''out.gcode'') = Inr args" for v
    by (rule generatePrusaCommand_total) (simp add: example_config_def Object_prototype_keys_def js_def)
  have str: "decimal_string (Fin (1/10)) = js ''0.1''" "decimal_string (Fin (15/100)) = js ''0.15''"
    "decimal_string (Fin (2/10)) = js ''0.2''"
    by code_simp+
  from total [of "Fin (2/10)"] obtain a2 where a2: "generatePrusaCommand decimal_string
      (example_config (Fin (2/10)) False) (js ''in.obj'') (js ''out.gcode'') = Inr a2" ..
  from total [of "Fin (3/10)"] obtain a3 where a3: "generatePrusaCommand decimal_string
      (example_config (Fin (3/10)) False) (js ''in.obj'') (js ''out.gcode'') = Inr a3" ..
  from total [of "Fin (4/10)"] obtain a4 where a4: "generatePrusaCommand decimal_string
      (example_config (Fin (4/10)) False) (js ''in.obj'') (js ''out.gcode'') = Inr a4" ..
  have n: "nozzleSize (example_config v False) = v" for v by (simp add: example_config_def)
  from generatePrusaCommand_layer_height [OF a2] have "a2 ! 17 = decimal_string (Fin (1/10))"
    unfolding n by blast
  moreover from generatePrusaCommand_layer_height [OF a3] have "a3 ! 17 = decimal_string (Fin (15/100))"
    unfolding n by blast
  moreover from generatePrusaCommand_layer_height [OF a4] have "a4 ! 17 = decimal_string (Fin (2/10))"
    unfolding n by blast
  ultimately show ?thesis
    unfolding a2 a3 a4 str [symmetric] by simp
qed

section \<open>Properties of the binary STL reader\<close>

lemma getFloat32_in_range:
  "offset + 4 \<le> length view \<Longrightarrow> getFloat32 view offset = Inr (float32_value (le32_at view offset))"
  by (simp add: getFloat32_def getUint32_def)

lemma readBinarySTL_vertices_ok:
  "offset + 12 * k \<le> length view \<Longrightarrow>
   readBinarySTL_vertices view k offset verts =
     Inr (offset + 12 * k, verts @ map (\<lambda>j. vertex_at view (offset + 12 * j)) [0..<k])"
proof (induction k arbitrary: offset verts)
  case 0
  then show ?case by simp
next
  case (Suc k)
  have shift: "map (\<lambda>j. vertex_at view (offset + 12 * j)) [0..<Suc k] =
      vertex_at view offset # map (\<lambda>j. vertex_at view (offset + 12 + 12 * j)) [0..<k]"
    by (simp add: upt_conv_Cons map_Suc_upt [symmetric] add.assoc del: upt_Suc)
  from Suc.prems have "offset + 12 + 12 * k \<le> length view" by simp
  from Suc.IH [OF this] Suc.prems show ?case
    by (simp add: getFloat32_in_range vertex_at_def [symmetric] shift del: upt_Suc)
qed

lemma readBinarySTL_loop_ok:
  "offset + 50 * k \<le> length view \<Longrightarrow>
   readBinarySTL_loop view k offset verts =
     Inr (verts @ concat (map (\<lambda>i. map (\<lambda>j. vertex_at view (offset + 50 * i + 12 + 12 * j)) [0..<3])
                          [0..<k]))"
proof (induction k arbitrary: offset verts)
  case 0
  then show ?case by simp
next
  case (Suc k)
  let ?row = "\<lambda>off i. map (\<lambda>j. vertex_at view (off + 50 * i + 12 + 12 * j)) [0..<3]"
  have shift: "map (?row offset) [0..<Suc k] = ?row offset 0 # map (?row (offset + 50)) [0..<k]"
    by (simp add: upt_conv_Cons map_Suc_upt [symmetric] add.assoc del: upt_Suc)
  from Suc.prems have inner: "offset + 12 + 12 * 3 \<le> length view" by simp
  from Suc.prems have rest: "offset + 50 + 50 * k \<le> length view" by simp
  have step: "readBinarySTL_vertices view 3 (offset + 12) verts =
      Inr (offset + 12 + 12 * 3, verts @ map (\<lambda>j. vertex_at view (offset + 12 + 12 * j)) [0..<3])"
    by (rule readBinarySTL_vertices_ok [OF inner])
  have eq: "offset + 12 + 12 * 3 + 2 = offset + 50" by simp
  have ih: "readBinarySTL_loop view k (offset + 12 + 12 * 3 + 2) V =
      Inr (V @ concat (map (?row (offset + 50)) [0..<k]))" for V
    unfolding eq by (rule Suc.IH [OF rest])
  show ?case
    apply (subst shift)
    apply (simp only: readBinarySTL_loop.simps step sum.case prod.case ih)
    apply (simp only: concat.simps append_assoc mult_zero_right add_0_right)
    done
qed

lemma concat_uniform_nth:
  "\<forall>xs \<in> set xss. length xs = m \<Longrightarrow> i < length xss \<Longrightarrow> j < m \<Longrightarrow>
   concat xss ! (m * i + j) = xss ! i ! j"
proof (induction xss arbitrary: i)
  case Nil
  then show ?case by simp
next
  case (Cons xs xss)
  show ?case
  proof (cases i)
    case 0
    with Cons.prems show ?thesis by (simp add: nth_append)
  next
    case (Suc i')
    with Cons.prems have "concat xss ! (m * i' + j) = xss ! i' ! j"
      by (intro Cons.IH) auto
    with Cons.prems Suc show ?thesis by (simp add: nth_append add.assoc)
  qed
qed

lemma concat_uniform_length:
  "\<forall>xs \<in> set xss. length xs = m \<Longrightarrow> length (concat xss) = m * length xss"
  by (induction xss) auto

lemma utf8_run_zeros: "utf8_run 0 0 128 191 (replicate k 0) = replicate k 0"
  by (induction k) simp_all

lemma lower_zeros: "toLowerCase (replicate k 0) = replicate k 0"
  by (induction k) (simp_all add: toLowerCase_def lower_char_def)

lemma sublist_zeros: "c \<noteq> 0 \<Longrightarrow> \<not> sublist (c # cs) (replicate k 0)"
  by (induction k) (simp_all add: sublist_Cons_right)

text \<open>The binary path of readSTL.\<close>

lemma readSTL_binary_path:
  assumes "length buf = 84 + n * 50" and "le32_at buf 80 = n" and "0 < n"
  shows "\<exists>pts. readSTL buf = Inr pts \<and> length pts = 3 * n \<and>
           (\<forall>i<n. \<forall>j<3. pts ! (3 * i + j) = stored_vertex buf i j)"
proof -
  let ?rows = "map (\<lambda>i. map (\<lambda>j. vertex_at buf (84 + 50 * i + 12 + 12 * j)) [0..<3]) [0..<n]"
  have u: "getUint32 buf 80 = Inr n" using assms by (simp add: getUint32_def)
  have "84 + 50 * n \<le> length buf" using assms by simp
  then have loop: "readBinarySTL buf n = Inr (concat ?rows)"
    unfolding readBinarySTL_def by (simp add: readBinarySTL_loop_ok del: upt_Suc)
  have read: "readSTL buf = Inr (concat ?rows)"
    using assms u loop by (simp add: readSTL_def)
  have uni: "\<forall>xs \<in> set ?rows. length xs = 3" by auto
  have len: "length (concat ?rows) = 3 * n"
    using concat_uniform_length [OF uni] by simp
  have nth: "concat ?rows ! (3 * i + j) = stored_vertex buf i j" if "i < n" "j < 3" for i j
  proof -
    have "concat ?rows ! (3 * i + j) = ?rows ! i ! j"
      using that by (intro concat_uniform_nth [OF uni]) auto
    also have "\<dots> = stored_vertex buf i j"
      using that by (simp add: stored_vertex_def del: upt_Suc)
    finally show ?thesis .
  qed
  show ?thesis using read len nth by blast
qed

text \<open>
  C1 (as amended). For every binary STL input whose little-endian 32-bit triangle count at
  offset 80 is N, with N at least 1, and whose length is 84 + N*50 bytes, readSTL returns
  exactly 3N points, and point 3i+j is vertex j of triangle i as stored: its coordinates
  are the numbers the three singles denote.
\<close>

theorem readSTL_binary:
  assumes "length buf = 84 + n * 50" and "le32_at buf 80 = n" and "0 < n"
  shows "\<exists>pts. readSTL buf = Inr pts \<and> length pts = 3 * n \<and>
           (\<forall>i<n. \<forall>j<3. pts ! (3 * i + j) = stored_vertex buf i j)"
  using assms by (rule readSTL_binary_path)

theorem readSTL_binary_witness:
  "length (replicate 80 (0::byte) @ [1, 0, 0, 0] @ replicate 12 0 @
      [0, 0, 128, 63,  0, 0, 0, 64,  0, 0, 64, 64,
       0, 0, 128, 191,  0, 0, 0, 0,  0, 0, 128, 127,
       0, 0, 192, 127,  0, 0, 128, 255,  0, 0, 32, 65] @ [0, 0]) = 84 + 1 * 50 \<and>
   le32_at (replicate 80 (0::byte) @ [1, 0, 0, 0] @ replicate 12 0 @
      [0, 0, 128, 63,  0, 0, 0, 64,  0, 0, 64, 64,
       0, 0, 128, 191,  0, 0, 0, 0,  0, 0, 128, 127,
       0, 0, 192, 127,  0, 0, 128, 255,  0, 0, 32, 65] @ [0, 0]) 80 = 1 \<and>
   (\<exists>pts. readSTL (replicate 80 (0::byte) @ [1, 0, 0, 0] @ replicate 12 0 @
      [0, 0, 128, 63,  0, 0, 0, 64,  0, 0, 64, 64,
       0, 0, 128, 191,  0, 0, 0, 0,  0, 0, 128, 127,
       0, 0, 192, 127,  0, 0, 128, 255,  0, 0, 32, 65] @ [0, 0]) = Inr pts \<and>
      length pts = 3 \<and>
      pts ! 0 = (Fin 1, Fin 2, Fin 3) \<and>
      pts ! 1 = (Fin (- 1), Fin 0, PosInf) \<and>
      pts ! 2 = (NaN, NegInf, Fin 10))"
proof -
  let ?B = "replicate 80 (0::byte) @ [1, 0, 0, 0] @ replicate 12 0 @
      [0, 0, 128, 63,  0, 0, 0, 64,  0, 0, 64, 64,
       0, 0, 128, 191,  0, 0, 0, 0,  0, 0, 128, 127,
       0, 0, 192, 127,  0, 0, 128, 255,  0, 0, 32, 65] @ [0, 0]"
  have len: "length ?B = 84 + 1 * 50" by simp
  have cnt: "le32_at ?B 80 = 1" by (simp add: le32_at_def nth_append)
  have v0: "stored_vertex ?B 0 0 = (Fin 1, Fin 2, Fin 3)"
    by (simp add: stored_vertex_def vertex_at_def le32_at_def nth_append float32_value_def)
  have v1: "stored_vertex ?B 0 1 = (Fin (- 1), Fin 0, PosInf)"
    by (simp add: stored_vertex_def vertex_at_def le32_at_def nth_append float32_value_def)
  have v2: "stored_vertex ?B 0 2 = (NaN, NegInf, Fin 10)"
    by (simp add: stored_vertex_def vertex_at_def le32_at_def nth_append float32_value_def)
  from readSTL_binary [OF len cnt] obtain pts where
    "readSTL ?B = Inr pts" "length pts = 3 * 1"
    "\<forall>i<1. \<forall>j<3. pts ! (3 * i + j) = stored_vertex ?B i j" by auto
  then have "readSTL ?B = Inr pts \<and> length pts = 3 \<and> pts ! 0 = stored_vertex ?B 0 0 \<and>
     pts ! 1 = stored_vertex ?B 0 1 \<and> pts ! 2 = stored_vertex ?B 0 2"
    by auto
  then show ?thesis
    unfolding v0 v1 v2 using len cnt by blast
qed

text \<open>
  A header that declares zero triangles, with the matching length of 84 bytes, is not
  read as a binary file (the length must exceed 84): decoding does not yield zero points
  but fails.
\<close>

theorem readSTL_binary_counterexample:
  "length (replicate 84 (0::byte)) = 84 + 0 * 50 \<and> le32_at (replicate 84 0) 80 = 0 \<and>
   readSTL (replicate 84 0) = Inl (Error (js ''Not a valid STL file''))"
proof -
  have "\<not> sublist (js ''solid'') (replicate 84 0)"
    by (simp add: js_def sublist_zeros)
  moreover have "replicate 3 (0::byte) \<noteq> [239, 187, 191]"
    by (simp add: numeral_3_eq_3)
  ultimately show ?thesis
    by (simp add: readSTL_def TextDecoder_decode_def utf8_run_zeros lower_zeros le32_at_def
          Let_def)
qed

section \<open>Properties of the text readers\<close>

text \<open>The rewrite rules that evaluate the text functions on a given text.\<close>

lemmas text_eval = split_on_def trim_def is_whitespace_def is_line_terminator_def js_def
  time_marker_def match_at_def match_group_def sublist_Cons_right

lemmas reader_eval = split_whitespace_def toLowerCase_def lower_char_def Number_def
  unsigned_decimal_def is_digit_def exponent_part_def digits_in_def digits_value_def
  digit_of_def pow10_def js_neg_def Let_def

text \<open>\<open>toLowerCase\<close> followed by \<open>includes\<close> is containment up to the case of ASCII letters.\<close>

lemma toLowerCase_Cons: "toLowerCase (c # cs) = lower_char c @ toLowerCase cs"
  by (simp add: toLowerCase_def)

lemma prefix_toLowerCase:
  "plain_word tok \<Longrightarrow> prefix tok (toLowerCase s) \<longleftrightarrow> prefix_ci tok s"
proof (induction tok s rule: prefix_ci.induct)
  case (1 s)
  then show ?case by simp
next
  case (2 t ts)
  then show ?case by (simp add: toLowerCase_def)
next
  case (3 t ts c cs)
  from "3.prems" have ts: "plain_word ts" and t: "97 \<le> t" "t \<le> 122" "t \<noteq> 107"
    and i: "t = 105 \<Longrightarrow> ts \<noteq> []" by auto
  have ih: "prefix ts (toLowerCase cs) \<longleftrightarrow> prefix_ci ts cs" by (rule "3.IH" [OF ts])
  show ?case
  proof (cases "c = 304")
    case True
    have "\<not> prefix ts (775 # toLowerCase cs)" if "t = 105"
    proof -
      from i [OF that] obtain u us where us: "ts = u # us" by (cases ts) auto
      with ts have "u \<le> 122" by simp
      with us show ?thesis by auto
    qed
    with True t show ?thesis
      by (auto simp: toLowerCase_Cons lower_char_def same_letter_def)
  next
    case False
    with t ih show ?thesis
      by (auto simp: toLowerCase_Cons lower_char_def same_letter_def)
  qed
qed

lemma includes_toLowerCase:
  assumes "plain_word tok"
  shows "sublist tok (toLowerCase s) \<longleftrightarrow> contains_ci tok s"
proof (induction s)
  case Nil
  then show ?case by (simp add: toLowerCase_def)
next
  case (Cons c cs)
  note pre = prefix_toLowerCase [OF assms, of "c # cs"]
  show ?case
  proof (cases "c = 304")
    case False
    then have "\<exists>c'. lower_char c = [c']" by (simp add: lower_char_def)
    then obtain c' where c': "lower_char c = [c']" ..
    with pre Cons show ?thesis
      by (simp add: toLowerCase_Cons sublist_Cons_right)
  next
    case True
    have no: "\<not> prefix tok (775 # toLowerCase cs)" if "tok \<noteq> []"
    proof -
      from that obtain t ts where "tok = t # ts" by (cases tok) auto
      with assms show ?thesis by auto
    qed
    show ?thesis
    proof (cases "tok = []")
      case True
      then show ?thesis by simp
    next
      case False
      with True pre Cons no show ?thesis
        by (simp add: toLowerCase_Cons lower_char_def sublist_Cons_right)
    qed
  qed
qed

lemma solid_plain: "plain_word (js ''solid'')" and facet_plain: "plain_word (js ''facet'')"
  by (simp_all add: js_def)

text \<open>The text path of readSTL.\<close>

lemma readSTL_text_path:
  assumes "\<not> (84 < length buf \<and> length buf = 84 + le32_at buf 80 * 50)"
  shows "readSTL buf =
     (if contains_ci (js ''solid'') (TextDecoder_decode buf) \<and>
         contains_ci (js ''facet'') (TextDecoder_decode buf)
      then Inr (readASCIISTL (TextDecoder_decode buf))
      else Inl (Error (js ''Not a valid STL file'')))"
  using assms
  by (auto simp: readSTL_def getUint32_def Let_def
        includes_toLowerCase [OF solid_plain] includes_toLowerCase [OF facet_plain])

text \<open>
  C6. Every STL input that fails the binary test (its length is not greater than 84, or is
  not 84 + count*50 for the count declared at offset 80) is read as text: if the decoded
  text contains both \<open>solid\<close> and \<open>facet\<close>, case-insensitively, the result is what
  readASCIISTL makes of the text; if not, decoding fails with the format error.
\<close>

theorem readSTL_fallback:
  assumes "\<not> (84 < length buf \<and> length buf = 84 + le32_at buf 80 * 50)"
  shows "readSTL buf =
     (if contains_ci (js ''solid'') (TextDecoder_decode buf) \<and>
         contains_ci (js ''facet'') (TextDecoder_decode buf)
      then Inr (readASCIISTL (TextDecoder_decode buf))
      else Inl (Error (js ''Not a valid STL file'')))"
  using assms by (rule readSTL_text_path)

theorem readSTL_fallback_witness:
  "\<not> (84 < length (ascii ''SOLID part'' @ [10] @ ascii ''Facet normal 0 0 1'' @ [10] @
                     ascii '' vertex 1 2.5 -3e1'') \<and>
      length (ascii ''SOLID part'' @ [10] @ ascii ''Facet normal 0 0 1'' @ [10] @
              ascii '' vertex 1 2.5 -3e1'') =
      84 + le32_at (ascii ''SOLID part'' @ [10] @ ascii ''Facet normal 0 0 1'' @ [10] @
                    ascii '' vertex 1 2.5 -3e1'') 80 * 50) \<and>
   readSTL (ascii ''SOLID part'' @ [10] @ ascii ''Facet normal 0 0 1'' @ [10] @
            ascii '' vertex 1 2.5 -3e1'') = Inr [(Fin 1, Fin (5/2), Fin (- 30))] \<and>
   \<not> (84 < length (ascii ''hello'') \<and>
      length (ascii ''hello'') = 84 + le32_at (ascii ''hello'') 80 * 50) \<and>
   readSTL (ascii ''hello'') = Inl (Error (js ''Not a valid STL file''))"
proof -
  let ?B = "ascii ''SOLID part'' @ [10] @ ascii ''Facet normal 0 0 1'' @ [10] @
            ascii '' vertex 1 2.5 -3e1''"
  have short: "\<not> (84 < length ?B \<and> length ?B = 84 + le32_at ?B 80 * 50)"
    by (simp add: ascii_def)
  have short2: "\<not> (84 < length (ascii ''hello'') \<and>
      length (ascii ''hello'') = 84 + le32_at (ascii ''hello'') 80 * 50)"
    by (simp add: ascii_def)
  have dec: "TextDecoder_decode ?B =
      js ''SOLID part'' @ [10] @ js ''Facet normal 0 0 1'' @ [10] @ js '' vertex 1 2.5 -3e1''"
    by (simp add: TextDecoder_decode_def ascii_def js_def)
  have dec2: "TextDecoder_decode (ascii ''hello'') = js ''hello''"
    by (simp add: TextDecoder_decode_def ascii_def js_def)
  have ci: "contains_ci (js ''solid'') (js ''SOLID part'' @ [10] @ js ''Facet normal 0 0 1'' @ [10] @ js '' vertex 1 2.5 -3e1'')"
    "contains_ci (js ''facet'') (js ''SOLID part'' @ [10] @ js ''Facet normal 0 0 1'' @ [10] @ js '' vertex 1 2.5 -3e1'')"
    by (simp_all add: js_def same_letter_def)
  have nci: "\<not> contains_ci (js ''solid'') (js ''hello'')"
    by (simp add: js_def same_letter_def)
  have pts: "readASCIISTL (js ''SOLID part'' @ [10] @ js ''Facet normal 0 0 1'' @ [10] @ js '' vertex 1 2.5 -3e1'')
      = [(Fin 1, Fin (5/2), Fin (- 30))]"
    by (simp add: readASCIISTL_def text_eval reader_eval)
  from readSTL_fallback [OF short] readSTL_fallback [OF short2] show ?thesis
    using short short2 by (simp only: dec dec2 ci nci pts if_True if_False simp_thms)
qed

lemma vertex_line_test:
  "(take 1 (split_whitespace (toLowerCase (trim line))) = [js ''vertex''] \<and>
    length (split_whitespace (toLowerCase (trim line))) = 4) \<longleftrightarrow> is_vertex_line line"
proof -
  define parts where "parts = split_whitespace (toLowerCase (trim line))"
  have main: "(take 1 parts = [js ''vertex''] \<and> length parts = 4) \<longleftrightarrow>
        (case parts of [t0, t1, t2, t3] \<Rightarrow> t0 = js ''vertex'' | _ \<Rightarrow> False)"
    by (simp split: list.split)
  show ?thesis
    unfolding is_vertex_line_def parts_def [symmetric] by (rule main)
qed

lemma readASCIISTL_loop_map:
  "readASCIISTL_loop verts lines = verts @ map vertex_of_line (filter is_vertex_line lines)"
proof (induction lines arbitrary: verts)
  case Nil
  then show ?case by simp
next
  case (Cons line lines)
  show ?case
  proof (cases "is_vertex_line line")
    case True
    then have "take 1 (split_whitespace (toLowerCase (trim line))) = [js ''vertex''] \<and>
      length (split_whitespace (toLowerCase (trim line))) = 4"
      using vertex_line_test [of line] by blast
    with True show ?thesis
      by (simp add: Cons.IH vertex_of_line_def Let_def)
  next
    case False
    then have "\<not> (take 1 (split_whitespace (toLowerCase (trim line))) = [js ''vertex''] \<and>
      length (split_whitespace (toLowerCase (trim line))) = 4)"
      using vertex_line_test [of line] by blast
    with False show ?thesis
      by (simp add: Cons.IH Let_def)
  qed
qed

lemma readOBJ_loop_no_NaN:
  "\<forall>v \<in> set verts. vx v \<noteq> NaN \<and> vy v \<noteq> NaN \<and> vz v \<noteq> NaN \<Longrightarrow>
   \<forall>v \<in> set (readOBJ_loop verts lines). vx v \<noteq> NaN \<and> vy v \<noteq> NaN \<and> vz v \<noteq> NaN"
proof (induction lines arbitrary: verts)
  case Nil
  then show ?case by simp
next
  case (Cons line lines)
  define parts where "parts = split_whitespace (trim line)"
  define pt where "pt = (Number (parts ! 1), Number (parts ! 2), Number (parts ! 3))"
  have "\<exists>verts'. readOBJ_loop verts (line # lines) = readOBJ_loop verts' lines \<and>
          (\<forall>v \<in> set verts'. vx v \<noteq> NaN \<and> vy v \<noteq> NaN \<and> vz v \<noteq> NaN)"
  proof (cases "take 1 parts = [js ''v''] \<and> 4 \<le> length parts \<and>
                vx pt \<noteq> NaN \<and> vy pt \<noteq> NaN \<and> vz pt \<noteq> NaN")
    case True
    then have "readOBJ_loop verts (line # lines) = readOBJ_loop (verts @ [pt]) lines"
      by (simp add: parts_def pt_def vx_def vy_def vz_def Let_def)
    with True Cons.prems show ?thesis by (intro exI [of _ "verts @ [pt]"]) auto
  next
    case False
    then have "readOBJ_loop verts (line # lines) = readOBJ_loop verts lines"
      by (auto simp: parts_def pt_def vx_def vy_def vz_def Let_def)
    with Cons.prems show ?thesis by (intro exI [of _ verts]) auto
  qed
  then obtain verts' where step: "readOBJ_loop verts (line # lines) = readOBJ_loop verts' lines"
    and ok: "\<forall>v \<in> set verts'. vx v \<noteq> NaN \<and> vy v \<noteq> NaN \<and> vz v \<noteq> NaN" by blast
  from Cons.IH [OF ok] show ?case unfolding step .
qed

lemma readOBJ_no_NaN:
  "readOBJ buf = Inr verts \<Longrightarrow> \<forall>v \<in> set verts. vx v \<noteq> NaN \<and> vy v \<noteq> NaN \<and> vz v \<noteq> NaN"
  using readOBJ_loop_no_NaN [of "[]" "split_on 10 (TextDecoder_decode buf)"]
  by (auto simp: readOBJ_def Let_def split: if_splits)

lemma readOBJ_not_empty: "readOBJ buf \<noteq> Inr []"
  by (simp add: readOBJ_def Let_def)

lemma getSize_count:
  "getSize rnd verts = Inr d \<Longrightarrow> vertexCount d = length verts \<and> verts \<noteq> []"
  by (auto simp: getSize_def Let_def split: if_splits)

lemma obj_vertex_line_test:
  "(take 1 (split_whitespace (trim line)) = [js ''v''] \<and>
    4 \<le> length (split_whitespace (trim line)) \<and>
    Number (split_whitespace (trim line) ! 1) \<noteq> NaN \<and>
    Number (split_whitespace (trim line) ! 2) \<noteq> NaN \<and>
    Number (split_whitespace (trim line) ! 3) \<noteq> NaN) \<longleftrightarrow> is_obj_vertex_line line"
proof -
  define parts where "parts = split_whitespace (trim line)"
  have main: "(take 1 parts = [js ''v''] \<and> 4 \<le> length parts \<and>
      Number (parts ! 1) \<noteq> NaN \<and> Number (parts ! 2) \<noteq> NaN \<and> Number (parts ! 3) \<noteq> NaN) \<longleftrightarrow>
      (case parts of
         t0 # t1 # t2 # t3 # rest \<Rightarrow>
           t0 = js ''v'' \<and> Number t1 \<noteq> NaN \<and> Number t2 \<noteq> NaN \<and> Number t3 \<noteq> NaN
       | _ \<Rightarrow> False)"
    by (auto split: list.split)
  show ?thesis
    unfolding is_obj_vertex_line_def parts_def [symmetric] by (rule main)
qed

text \<open>readOBJ pushes the point of each contributing line, in order, and nothing else.\<close>

lemma readOBJ_loop_map:
  "readOBJ_loop verts lines =
     verts @ map obj_vertex_of_line (filter is_obj_vertex_line lines)"
proof (induction lines arbitrary: verts)
  case Nil
  then show ?case by simp
next
  case (Cons line lines)
  show ?case
  proof (cases "is_obj_vertex_line line")
    case True
    then have "take 1 (split_whitespace (trim line)) = [js ''v''] \<and>
      4 \<le> length (split_whitespace (trim line)) \<and>
      Number (split_whitespace (trim line) ! 1) \<noteq> NaN \<and>
      Number (split_whitespace (trim line) ! 2) \<noteq> NaN \<and>
      Number (split_whitespace (trim line) ! 3) \<noteq> NaN"
      using obj_vertex_line_test [of line] by blast
    with True show ?thesis
      by (simp add: Cons.IH obj_vertex_of_line_def Let_def)
  next
    case False
    then have "\<not> (take 1 (split_whitespace (trim line)) = [js ''v''] \<and>
      4 \<le> length (split_whitespace (trim line)) \<and>
      Number (split_whitespace (trim line) ! 1) \<noteq> NaN \<and>
      Number (split_whitespace (trim line) ! 2) \<noteq> NaN \<and>
      Number (split_whitespace (trim line) ! 3) \<noteq> NaN)"
      using obj_vertex_line_test [of line] by blast
    with False show ?thesis
      by (auto simp: Cons.IH Let_def)
  qed
qed

lemma readOBJ_points:
  "readOBJ buf =
     (if filter is_obj_vertex_line (split_on 10 (TextDecoder_decode buf)) = []
      then Inl (Error (js ''No valid vertices in OBJ''))
      else Inr (map obj_vertex_of_line
                  (filter is_obj_vertex_line (split_on 10 (TextDecoder_decode buf)))))"
  by (simp add: readOBJ_def readOBJ_loop_map Let_def)

text \<open>A file read on the binary path has at least one triangle, hence three points.\<close>

lemma readSTL_binary_not_empty:
  assumes "84 < length buf" and "length buf = 84 + le32_at buf 80 * 50"
  shows "\<exists>pts. readSTL buf = Inr pts \<and> length pts = 3 * le32_at buf 80 \<and> pts \<noteq> []"
proof -
  from assms have pos: "0 < le32_at buf 80" by (cases "le32_at buf 80") auto
  from readSTL_binary_path [OF assms(2) refl pos] obtain pts
    where pts: "readSTL buf = Inr pts" "length pts = 3 * le32_at buf 80" by blast
  with pos have "pts \<noteq> []" by auto
  with pts show ?thesis by blast
qed

text \<open>The one way for readSTL to return no point.\<close>

lemma readSTL_empty:
  "readSTL buf = Inr [] \<longleftrightarrow>
     \<not> (84 < length buf \<and> length buf = 84 + le32_at buf 80 * 50) \<and>
     contains_ci (js ''solid'') (TextDecoder_decode buf) \<and>
     contains_ci (js ''facet'') (TextDecoder_decode buf) \<and>
     filter is_vertex_line (split_on 10 (TextDecoder_decode buf)) = []"
proof (cases "84 < length buf \<and> length buf = 84 + le32_at buf 80 * 50")
  case True
  then obtain pts where "readSTL buf = Inr pts" "pts \<noteq> []"
    using readSTL_binary_not_empty [of buf] by blast
  with True show ?thesis by auto
next
  case False
  show ?thesis
    unfolding readSTL_text_path [OF False]
    using False by (auto simp: readASCIISTL_def readASCIISTL_loop_map)
qed

text \<open>
  C5 (as amended). Zero points never give a result, but the decoder is not always what
  fails. OBJ: readOBJ returns the points of the contributing lines, in order, when there
  is one, and fails with \<open>No valid vertices in OBJ\<close> when there is none; the request then
  answers 500 with that message. Binary STL: a file read as binary has at least one
  triangle and gives three points for each. ASCII STL: readSTL returns the empty point
  sequence, without failing, exactly when the file is read as text, the text has \<open>solid\<close>
  and \<open>facet\<close>, and no line of it is a vertex line; the failure then comes from getSize,
  and the request answers 500 with \<open>No vertices found\<close>. No request reports a result with
  zero points.
\<close>

theorem empty_mesh_fails:
  "readOBJ buf =
     (if filter is_obj_vertex_line (split_on 10 (TextDecoder_decode buf)) = []
      then Inl (Error (js ''No valid vertices in OBJ''))
      else Inr (map obj_vertex_of_line
                  (filter is_obj_vertex_line (split_on 10 (TextDecoder_decode buf))))) \<and>
   readOBJ buf \<noteq> Inr [] \<and>
   (toLowerCase (last (split_on 46 name)) = js ''obj'' \<and> buf \<noteq> [] \<and>
    filter is_obj_vertex_line (split_on 10 (TextDecoder_decode buf)) = [] \<longrightarrow>
      api_dimensions rnd (Some (name, buf)) up =
        (Dimensions_error 500 (js ''No valid vertices in OBJ''), up)) \<and>
   (84 < length buf \<and> length buf = 84 + le32_at buf 80 * 50 \<longrightarrow>
      (\<exists>pts. readSTL buf = Inr pts \<and> length pts = 3 * le32_at buf 80 \<and> pts \<noteq> [])) \<and>
   (readSTL buf = Inr [] \<longleftrightarrow>
      \<not> (84 < length buf \<and> length buf = 84 + le32_at buf 80 * 50) \<and>
      contains_ci (js ''solid'') (TextDecoder_decode buf) \<and>
      contains_ci (js ''facet'') (TextDecoder_decode buf) \<and>
      filter is_vertex_line (split_on 10 (TextDecoder_decode buf)) = []) \<and>
   (toLowerCase (last (split_on 46 name)) = js ''stl'' \<and> buf \<noteq> [] \<and> readSTL buf = Inr [] \<longrightarrow>
      api_dimensions rnd (Some (name, buf)) up =
        (Dimensions_error 500 (js ''No vertices found''), up)) \<and>
   (\<forall>d up'. api_dimensions rnd (Some (name, buf)) up = (Dimensions_ok d, up')
      \<longrightarrow> 0 < vertexCount d)"
proof (intro conjI allI impI)
  show "readOBJ buf =
     (if filter is_obj_vertex_line (split_on 10 (TextDecoder_decode buf)) = []
      then Inl (Error (js ''No valid vertices in OBJ''))
      else Inr (map obj_vertex_of_line
                  (filter is_obj_vertex_line (split_on 10 (TextDecoder_decode buf)))))"
    by (rule readOBJ_points)
next
  show "readOBJ buf \<noteq> Inr []" by (rule readOBJ_not_empty)
next
  assume h: "toLowerCase (last (split_on 46 name)) = js ''obj'' \<and> buf \<noteq> [] \<and>
    filter is_obj_vertex_line (split_on 10 (TextDecoder_decode buf)) = []"
  then have r: "readOBJ buf = Inl (Error (js ''No valid vertices in OBJ''))"
    by (simp add: readOBJ_points)
  have "js ''obj'' \<noteq> js ''stl''" by (simp add: js_def)
  with h r show "api_dimensions rnd (Some (name, buf)) up =
        (Dimensions_error 500 (js ''No valid vertices in OBJ''), up)"
    by (simp add: api_dimensions_def message_def)
next
  assume "84 < length buf \<and> length buf = 84 + le32_at buf 80 * 50"
  then show "\<exists>pts. readSTL buf = Inr pts \<and> length pts = 3 * le32_at buf 80 \<and> pts \<noteq> []"
    using readSTL_binary_not_empty [of buf] by blast
next
  show "readSTL buf = Inr [] \<longleftrightarrow>
      \<not> (84 < length buf \<and> length buf = 84 + le32_at buf 80 * 50) \<and>
      contains_ci (js ''solid'') (TextDecoder_decode buf) \<and>
      contains_ci (js ''facet'') (TextDecoder_decode buf) \<and>
      filter is_vertex_line (split_on 10 (TextDecoder_decode buf)) = []"
    by (rule readSTL_empty)
next
  assume "toLowerCase (last (split_on 46 name)) = js ''stl'' \<and> buf \<noteq> [] \<and> readSTL buf = Inr []"
  then show "api_dimensions rnd (Some (name, buf)) up =
        (Dimensions_error 500 (js ''No vertices found''), up)"
    by (simp add: api_dimensions_def getSize_def message_def)
next
  fix d up'
  assume "api_dimensions rnd (Some (name, buf)) up = (Dimensions_ok d, up')"
  then obtain verts where "getSize rnd verts = Inr d"
    by (auto simp: api_dimensions_def Let_def split: if_splits sum.splits)
  from getSize_count [OF this] show "0 < vertexCount d" by simp
qed

theorem empty_mesh_fails_witness:
  "toLowerCase (last (split_on 46 (js ''part.STL''))) = js ''stl'' \<and>
   ascii ''solid part'' @ [10] @ ascii ''facet normal 0 0 1'' @ [10] @ ascii ''endsolid'' \<noteq> [] \<and>
   readSTL (ascii ''solid part'' @ [10] @ ascii ''facet normal 0 0 1'' @ [10] @ ascii ''endsolid'')
   = Inr [] \<and>
   api_dimensions no_rounding
     (Some (js ''part.STL'',
            ascii ''solid part'' @ [10] @ ascii ''facet normal 0 0 1'' @ [10] @ ascii ''endsolid''))
     None
   = (Dimensions_error 500 (js ''No vertices found''), None) \<and>
   toLowerCase (last (split_on 46 (js ''bad.obj''))) = js ''obj'' \<and>
   ascii ''v a 0.5 1,5'' @ [10] @ ascii ''f 1 2 3'' \<noteq> [] \<and>
   filter is_obj_vertex_line
     (split_on 10 (TextDecoder_decode (ascii ''v a 0.5 1,5'' @ [10] @ ascii ''f 1 2 3''))) = [] \<and>
   readOBJ (ascii ''v a 0.5 1,5'' @ [10] @ ascii ''f 1 2 3'')
   = Inl (Error (js ''No valid vertices in OBJ'')) \<and>
   api_dimensions no_rounding
     (Some (js ''bad.obj'', ascii ''v a 0.5 1,5'' @ [10] @ ascii ''f 1 2 3'')) None
   = (Dimensions_error 500 (js ''No valid vertices in OBJ''), None) \<and>
   84 < length (replicate 80 (0::byte) @ [1, 0, 0, 0] @ replicate 50 0) \<and>
   length (replicate 80 (0::byte) @ [1, 0, 0, 0] @ replicate 50 0) =
     84 + le32_at (replicate 80 (0::byte) @ [1, 0, 0, 0] @ replicate 50 0) 80 * 50 \<and>
   (\<exists>pts. readSTL (replicate 80 (0::byte) @ [1, 0, 0, 0] @ replicate 50 0) = Inr pts \<and>
          length pts = 3 \<and> pts \<noteq> []) \<and>
   api_dimensions no_rounding
     (Some (js ''cube.obj'', ascii ''v 0 0 0'' @ [10] @ ascii ''v 1 2 3'')) None
   = (Dimensions_ok \<lparr> dim_x = Fin 1, dim_y = Fin 2, dim_z = Fin 3, vertexCount = 2 \<rparr>,
      Some \<lparr> buffer = ascii ''v 0 0 0'' @ [10] @ ascii ''v 1 2 3'', filename = js ''cube.obj'',
             extension = js ''obj'' \<rparr>) \<and>
   0 < vertexCount \<lparr> dim_x = Fin 1, dim_y = Fin 2, dim_z = Fin 3, vertexCount = 2 \<rparr>"
proof -
  let ?B = "ascii ''solid part'' @ [10] @ ascii ''facet normal 0 0 1'' @ [10] @ ascii ''endsolid''"
  let ?C = "ascii ''v 0 0 0'' @ [10] @ ascii ''v 1 2 3''"
  let ?D = "ascii ''v a 0.5 1,5'' @ [10] @ ascii ''f 1 2 3''"
  let ?E = "replicate 80 (0::byte) @ [1, 0, 0, 0] @ replicate 50 0"
  have short: "\<not> (84 < length ?B \<and> length ?B = 84 + le32_at ?B 80 * 50)"
    by (simp add: ascii_def)
  have dec: "TextDecoder_decode ?B =
      js ''solid part'' @ [10] @ js ''facet normal 0 0 1'' @ [10] @ js ''endsolid''"
    by (simp add: TextDecoder_decode_def ascii_def js_def)
  have ci: "contains_ci (js ''solid'') (js ''solid part'' @ [10] @ js ''facet normal 0 0 1'' @ [10] @ js ''endsolid'')"
    "contains_ci (js ''facet'') (js ''solid part'' @ [10] @ js ''facet normal 0 0 1'' @ [10] @ js ''endsolid'')"
    by (simp_all add: js_def same_letter_def)
  have none: "filter is_vertex_line
      (split_on 10 (js ''solid part'' @ [10] @ js ''facet normal 0 0 1'' @ [10] @ js ''endsolid'')) = []"
    by (simp add: is_vertex_line_def text_eval reader_eval)
  note stl_case = empty_mesh_fails [of ?B "js ''part.STL''" no_rounding None]
  from stl_case short have empty: "readSTL ?B = Inr []"
    by (simp only: dec ci none simp_thms)
  have ext: "toLowerCase (last (split_on 46 (js ''part.STL''))) = js ''stl''"
    by (simp add: split_on_def toLowerCase_def lower_char_def js_def)
  have ne: "?B \<noteq> []" by (simp add: ascii_def)
  from stl_case ext ne empty
  have stl: "api_dimensions no_rounding (Some (js ''part.STL'', ?B)) None =
      (Dimensions_error 500 (js ''No vertices found''), None)" by blast
  have ext3: "toLowerCase (last (split_on 46 (js ''bad.obj''))) = js ''obj''"
    by (simp add: split_on_def toLowerCase_def lower_char_def js_def)
  have ne3: "?D \<noteq> []" by (simp add: ascii_def)
  have none3: "filter is_obj_vertex_line (split_on 10 (TextDecoder_decode ?D)) = []"
    by (simp add: is_obj_vertex_line_def TextDecoder_decode_def ascii_def text_eval reader_eval)
  note obj_case = empty_mesh_fails [of ?D "js ''bad.obj''" no_rounding None]
  from obj_case have bad: "readOBJ ?D = Inl (Error (js ''No valid vertices in OBJ''))"
    by (simp only: none3 if_True simp_thms)
  from obj_case ext3 ne3 none3
  have obj500: "api_dimensions no_rounding (Some (js ''bad.obj'', ?D)) None =
      (Dimensions_error 500 (js ''No valid vertices in OBJ''), None)" by blast
  have len: "84 < length ?E" by simp
  have cnt: "le32_at ?E 80 = 1" by (simp add: le32_at_def nth_append)
  have len2: "length ?E = 84 + le32_at ?E 80 * 50" unfolding cnt by simp
  from empty_mesh_fails [of ?E "js ''part.stl''" no_rounding None] len len2
  have "\<exists>pts. readSTL ?E = Inr pts \<and> length pts = 3 * le32_at ?E 80 \<and> pts \<noteq> []"
    by blast
  then have bin: "\<exists>pts. readSTL ?E = Inr pts \<and> length pts = 3 \<and> pts \<noteq> []"
    unfolding cnt by simp
  have ext2: "toLowerCase (last (split_on 46 (js ''cube.obj''))) = js ''obj''"
    by (simp add: split_on_def toLowerCase_def lower_char_def js_def)
  have obj: "readOBJ ?C = Inr [(Fin 0, Fin 0, Fin 0), (Fin 1, Fin 2, Fin 3)]"
    by (simp add: readOBJ_def TextDecoder_decode_def ascii_def text_eval reader_eval)
  have size: "getSize no_rounding [(Fin 0, Fin 0, Fin 0), (Fin 1, Fin 2, Fin 3)] =
      Inr \<lparr> dim_x = Fin 1, dim_y = Fin 2, dim_z = Fin 3, vertexCount = 2 \<rparr>"
    by (simp add: getSize_def Math_min_def Math_max_def no_rounding_def)
  have "js ''obj'' \<noteq> js ''stl''" "?C \<noteq> []" by (simp_all add: js_def ascii_def)
  with obj size have ok: "api_dimensions no_rounding (Some (js ''cube.obj'', ?C)) None =
      (Dimensions_ok \<lparr> dim_x = Fin 1, dim_y = Fin 2, dim_z = Fin 3, vertexCount = 2 \<rparr>,
       Some \<lparr> buffer = ?C, filename = js ''cube.obj'', extension = js ''obj'' \<rparr>)"
    by (simp add: api_dimensions_def ext2)
  from empty_mesh_fails [of ?C "js ''cube.obj''" no_rounding None] ok
  have pos: "0 < vertexCount \<lparr> dim_x = Fin 1, dim_y = Fin 2, dim_z = Fin 3, vertexCount = 2 \<rparr>"
    by blast
  from ext ne empty stl ext3 ne3 none3 bad obj500 len len2 bin ok pos
  show ?thesis by (intro conjI)
qed

text \<open>
  An ASCII STL without a vertex line: readSTL returns the empty point sequence and does
  not fail.
\<close>

theorem empty_mesh_counterexample:
  "readSTL (ascii ''solid part'' @ [10] @ ascii ''facet normal 0 0 1'' @ [10] @
            ascii ''endsolid'') = Inr []"
proof -
  let ?B = "ascii ''solid part'' @ [10] @ ascii ''facet normal 0 0 1'' @ [10] @ ascii ''endsolid''"
  have short: "\<not> (84 < length ?B \<and> length ?B = 84 + le32_at ?B 80 * 50)"
    by (simp add: ascii_def)
  have dec: "TextDecoder_decode ?B =
      js ''solid part'' @ [10] @ js ''facet normal 0 0 1'' @ [10] @ js ''endsolid''"
    by (simp add: TextDecoder_decode_def ascii_def js_def)
  have ci: "contains_ci (js ''solid'') (js ''solid part'' @ [10] @ js ''facet normal 0 0 1'' @ [10] @ js ''endsolid'')"
    "contains_ci (js ''facet'') (js ''solid part'' @ [10] @ js ''facet normal 0 0 1'' @ [10] @ js ''endsolid'')"
    by (simp_all add: js_def same_letter_def)
  have pts: "readASCIISTL (js ''solid part'' @ [10] @ js ''facet normal 0 0 1'' @ [10] @ js ''endsolid'') = []"
    by (simp add: readASCIISTL_def text_eval reader_eval)
  from readSTL_text_path [OF short] show ?thesis
    by (simp only: dec ci pts if_True simp_thms)
qed

text \<open>
  C10. readASCIISTL returns one point for each line whose tokens, after trimming and
  lower-casing, are \<open>vertex\<close> and exactly three more, in order, and the point holds \<open>Number\<close>
  of the three tokens whether they are numeric or not. A token that is not numeric gives
  \<open>NaN\<close>: the line \<open>VERTEX a 0.5 1,5\<close> gives the point (NaN, 0.5, NaN), and getSize reports
  \<open>NaN\<close> extents for it. readOBJ returns no point with a \<open>NaN\<close> coordinate: it skips such a
  line.
\<close>

theorem ascii_stl_keeps_nan:
  "readASCIISTL txt = map vertex_of_line (filter is_vertex_line (split_on 10 txt)) \<and>
   (\<forall>verts. readOBJ buf = Inr verts \<longrightarrow>
      (\<forall>v \<in> set verts. vx v \<noteq> NaN \<and> vy v \<noteq> NaN \<and> vz v \<noteq> NaN)) \<and>
   is_vertex_line (js ''  VERTEX a 0.5 1,5 '') \<and>
   vertex_of_line (js ''  VERTEX a 0.5 1,5 '') = (NaN, Fin (1/2), NaN) \<and>
   getSize rnd [(NaN, Fin (1/2), NaN)] =
     Inr \<lparr> dim_x = NaN, dim_y = rnd 0, dim_z = NaN, vertexCount = 1 \<rparr> \<and>
   readOBJ (ascii ''v a 0.5 1,5'') = Inl (Error (js ''No valid vertices in OBJ''))"
proof (intro conjI)
  show "readASCIISTL txt = map vertex_of_line (filter is_vertex_line (split_on 10 txt))"
    by (simp add: readASCIISTL_def readASCIISTL_loop_map)
  show "\<forall>verts. readOBJ buf = Inr verts \<longrightarrow>
      (\<forall>v \<in> set verts. vx v \<noteq> NaN \<and> vy v \<noteq> NaN \<and> vz v \<noteq> NaN)"
    using readOBJ_no_NaN by blast
  have parts: "split_whitespace (toLowerCase (trim (js ''  VERTEX a 0.5 1,5 ''))) =
      [js ''vertex'', js ''a'', js ''0.5'', js ''1,5'']"
    by (simp add: text_eval split_whitespace_def toLowerCase_def lower_char_def)
  show "is_vertex_line (js ''  VERTEX a 0.5 1,5 '')"
    by (simp add: is_vertex_line_def parts)
  have nums: "Number (js ''a'') = NaN" "Number (js ''0.5'') = Fin (1/2)" "Number (js ''1,5'') = NaN"
    by (simp_all add: text_eval reader_eval)
  show "vertex_of_line (js ''  VERTEX a 0.5 1,5 '') = (NaN, Fin (1/2), NaN)"
    by (simp add: vertex_of_line_def parts nums)
  show "getSize rnd [(NaN, Fin (1/2), NaN)] =
     Inr \<lparr> dim_x = NaN, dim_y = rnd 0, dim_z = NaN, vertexCount = 1 \<rparr>"
    by (simp add: getSize_def Math_min_def Math_max_def)
  show "readOBJ (ascii ''v a 0.5 1,5'') = Inl (Error (js ''No valid vertices in OBJ''))"
    by (simp add: readOBJ_def TextDecoder_decode_def ascii_def text_eval reader_eval)
qed

theorem ascii_stl_keeps_nan_witness:
  "readASCIISTL (js ''vertex 1 x 3'' @ [10] @ js ''endloop'' @ [10] @ js ''Vertex 4 5 6'')
     = [(Fin 1, NaN, Fin 3), (Fin 4, Fin 5, Fin 6)] \<and>
   readOBJ (ascii ''v 1 x 3'' @ [10] @ ascii ''v 4 5 6'') = Inr [(Fin 4, Fin 5, Fin 6)] \<and>
   vx (Fin 4, Fin 5, Fin 6) \<noteq> NaN \<and> vy (Fin 4, Fin 5, Fin 6) \<noteq> NaN \<and>
   vz (Fin 4, Fin 5, Fin 6) \<noteq> NaN"
proof -
  let ?T = "js ''vertex 1 x 3'' @ [10] @ js ''endloop'' @ [10] @ js ''Vertex 4 5 6''"
  let ?B = "ascii ''v 1 x 3'' @ [10] @ ascii ''v 4 5 6''"
  have lines: "split_on 10 ?T = [js ''vertex 1 x 3'', js ''endloop'', js ''Vertex 4 5 6'']"
    by (simp add: split_on_def js_def)
  have l1: "is_vertex_line (js ''vertex 1 x 3'')" "vertex_of_line (js ''vertex 1 x 3'') = (Fin 1, NaN, Fin 3)"
    by (simp_all add: is_vertex_line_def vertex_of_line_def text_eval reader_eval)
  have l2: "\<not> is_vertex_line (js ''endloop'')"
    by (simp add: is_vertex_line_def text_eval reader_eval)
  have l3: "is_vertex_line (js ''Vertex 4 5 6'')" "vertex_of_line (js ''Vertex 4 5 6'') = (Fin 4, Fin 5, Fin 6)"
    by (simp_all add: is_vertex_line_def vertex_of_line_def text_eval reader_eval)
  have obj: "readOBJ ?B = Inr [(Fin 4, Fin 5, Fin 6)]"
    by (simp add: readOBJ_def TextDecoder_decode_def ascii_def text_eval reader_eval)
  from ascii_stl_keeps_nan [of ?T ?B]
  have "readASCIISTL ?T = [(Fin 1, NaN, Fin 3), (Fin 4, Fin 5, Fin 6)] \<and>
      (\<forall>v \<in> set [(Fin 4, Fin 5, Fin 6)]. vx v \<noteq> NaN \<and> vy v \<noteq> NaN \<and> vz v \<noteq> NaN)"
    apply (simp only: lines l1 l2 l3 obj filter.simps list.map if_True if_False simp_thms sum.inject)
    apply blast
    done
  with obj show ?thesis by simp
qed

section \<open>Properties of parsePrintTime\<close>

text \<open>The backtracking match, line by line, is \<open>time_of_line\<close>.\<close>

lemma line_terminator_is_whitespace: "is_line_terminator c \<Longrightarrow> is_whitespace c"
  by (auto simp: is_line_terminator_def is_whitespace_def)

lemma trim_all_whitespace: "\<forall>c \<in> set s. is_whitespace c \<Longrightarrow> trim s = []"
  by (auto simp: trim_def dest: set_dropWhileD)

lemma match_space_group_trim:
  "map_option trim (match_space_group t) =
     (let u = dropWhile is_whitespace t
      in if u \<noteq> [] then Some (trim (takeWhile (\<lambda>d. \<not> is_line_terminator d) u))
         else if list_ex (\<lambda>d. \<not> is_line_terminator d) t then Some []
         else None)"
proof (induction t)
  case Nil
  then show ?case by (simp add: match_group_def)
next
  case (Cons c cs)
  show ?case
  proof (cases "is_whitespace c")
    case False
    then have "\<not> is_line_terminator c" using line_terminator_is_whitespace by blast
    with False show ?thesis by (simp add: match_group_def)
  next
    case True
    note ws = True
    show ?thesis
    proof (cases "match_space_group cs")
      case (Some r)
      with Cons.IH ws show ?thesis
        by (auto simp: Let_def split: if_splits)
    next
      case None
      with Cons.IH have all: "dropWhile is_whitespace cs = []"
        and lt: "\<not> list_ex (\<lambda>d. \<not> is_line_terminator d) cs"
        by (auto simp: Let_def split: if_splits)
      from lt have tw: "takeWhile (\<lambda>d. \<not> is_line_terminator d) cs = []"
        by (cases cs) (auto simp: list_ex_iff)
      have "trim [c] = []" using ws by (simp add: trim_def)
      with None ws all lt tw show ?thesis
        by (simp add: match_group_def Let_def)
    qed
  qed
qed

lemma match_space_group_None:
  "match_space_group t = None \<longleftrightarrow> list_all is_line_terminator t"
proof -
  have "match_space_group t = None \<longleftrightarrow> map_option trim (match_space_group t) = None" by simp
  also have "\<dots> \<longleftrightarrow> dropWhile is_whitespace t = [] \<and> \<not> list_ex (\<lambda>d. \<not> is_line_terminator d) t"
    unfolding match_space_group_trim by (simp add: Let_def)
  also have "\<dots> \<longleftrightarrow> list_all is_line_terminator t"
    by (auto simp: list_all_iff list_ex_iff dropWhile_eq_Nil_conv line_terminator_is_whitespace)
  finally show ?thesis .
qed

lemma match_after_marker_eq:
  "match_after_marker r =
     (if 61 \<in> set r then match_space_group (drop 1 (dropWhile (\<lambda>c. c \<noteq> 61) r)) else None)"
  by (induction r) (auto split: option.splits)

lemma match_after_marker_tl:
  "match_after_marker (c # cs) = None \<Longrightarrow> match_after_marker cs = None"
proof (cases "c = 61")
  case False
  assume "match_after_marker (c # cs) = None"
  with False show ?thesis by (simp split: option.splits)
next
  case True
  assume "match_after_marker (c # cs) = None"
  with True have "list_all is_line_terminator cs" by (simp add: match_space_group_None)
  then have "61 \<notin> set cs" by (auto simp: list_all_iff is_line_terminator_def)
  then show ?thesis by (simp add: match_after_marker_eq)
qed

lemma match_after_marker_drop:
  "match_after_marker r = None \<Longrightarrow> match_after_marker (drop k r) = None"
proof (induction k arbitrary: r)
  case 0
  then show ?case by simp
next
  case (Suc k)
  show ?case
  proof (cases r)
    case Nil
    then show ?thesis by simp
  next
    case (Cons c cs)
    with Suc.prems have "match_after_marker (c # cs) = None" by (simp only:)
    then have "match_after_marker cs = None" by (rule match_after_marker_tl)
    from Suc.IH [OF this] Cons show ?thesis by simp
  qed
qed

lemma after_first_drop:
  "after_first w s = Some r \<Longrightarrow> \<exists>k. r = drop (k + length w) s"
proof (induction s)
  case Nil
  then show ?case by (auto split: if_splits)
next
  case (Cons c cs)
  show ?case
  proof (cases "prefix w (c # cs)")
    case True
    with Cons.prems show ?thesis by (intro exI [of _ 0]) simp
  next
    case False
    with Cons.prems have "after_first w cs = Some r" by simp
    from Cons.IH [OF this] obtain k where "r = drop (k + length w) cs" ..
    then have "r = drop (Suc k + length w) (c # cs)" by simp
    then show ?thesis by blast
  qed
qed

lemma after_first_sublist: "after_first w s \<noteq> None \<longleftrightarrow> sublist w s"
  by (induction s) (auto simp: sublist_Cons_right)

lemma marker_length: "0 < length time_marker"
  by (simp add: time_marker_def js_def)

lemma regex_exec_eq:
  "regex_exec l =
     (case after_first time_marker l of None \<Rightarrow> None | Some rest \<Rightarrow> match_after_marker rest)"
proof (induction l)
  case Nil
  have "time_marker \<noteq> []" using marker_length by auto
  then show ?case by (simp add: match_at_def)
next
  case (Cons c cs)
  obtain n where n: "length time_marker = Suc n"
    using marker_length by (cases "length time_marker") auto
  show ?case
  proof (cases "prefix time_marker (c # cs)")
    case False
    then have "match_at (c # cs) = None" by (simp only: match_at_def if_False)
    moreover from False have "after_first time_marker (c # cs) = after_first time_marker cs"
      by (simp only: after_first.simps if_False)
    ultimately show ?thesis using Cons.IH by (simp only: regex_exec.simps option.case)
  next
    case True
    let ?rest = "drop (length time_marker) (c # cs)"
    from True have at: "match_at (c # cs) = match_after_marker ?rest"
      by (simp only: match_at_def if_True)
    from True have af: "after_first time_marker (c # cs) = Some ?rest"
      by (simp only: after_first.simps if_True)
    have rest: "?rest = drop n cs" by (simp only: n drop_Suc_Cons)
    show ?thesis
    proof (cases "match_after_marker ?rest")
      case (Some r)
      then show ?thesis by (simp only: regex_exec.simps at af option.case)
    next
      case None
      have "regex_exec cs = None"
      proof (cases "after_first time_marker cs")
        case None
        with Cons.IH show ?thesis by (simp only: option.case)
      next
        case (Some rest')
        from after_first_drop [OF this] obtain k where k: "rest' = drop (k + length time_marker) cs" ..
        have "k + length time_marker = Suc k + n" by (simp only: n add_Suc_right add_Suc)
        then have "rest' = drop (Suc k) ?rest"
          by (simp only: k rest drop_drop)
        with match_after_marker_drop [OF None, of "Suc k"] have "match_after_marker rest' = None"
          by (simp only:)
        with Cons.IH Some show ?thesis by (simp only: option.case)
      qed
      with None show ?thesis by (simp only: regex_exec.simps at af option.case)
    qed
  qed
qed

lemma line_time:
  "(if sublist time_marker line then map_option trim (regex_exec line) else None) = time_of_line line"
proof (cases "after_first time_marker line")
  case None
  then have "\<not> sublist time_marker line" using after_first_sublist [of time_marker line] by simp
  with None show ?thesis by (simp add: time_of_line_def)
next
  case (Some rest)
  then have sub: "sublist time_marker line" using after_first_sublist [of time_marker line] by simp
  have exec: "regex_exec line = match_after_marker rest"
    by (simp add: regex_exec_eq Some)
  show ?thesis
  proof (cases "61 \<in> set rest")
    case False
    then have "match_after_marker rest = None" by (simp add: match_after_marker_eq)
    with False sub exec Some show ?thesis by (simp add: time_of_line_def)
  next
    case True
    then have "match_after_marker rest =
        match_space_group (drop 1 (dropWhile (\<lambda>c. c \<noteq> 61) rest))"
      by (simp only: match_after_marker_eq if_True)
    then have "map_option trim (regex_exec line) =
        map_option trim (match_space_group (drop 1 (dropWhile (\<lambda>c. c \<noteq> 61) rest)))"
      by (simp only: exec)
    also have "\<dots> = time_of_line line"
      unfolding match_space_group_trim time_of_line_def Some option.case Let_def
      using True by (simp only: not_True_eq_False if_False simp_thms)
    finally show ?thesis using sub by (simp only: if_True)
  qed
qed

lemma map_filter_all_None:
  "\<forall>x \<in> set xs. f x = None \<Longrightarrow> List.map_filter f xs = []"
  by (induction xs) (simp_all add: List.map_filter_simps)

lemma parsePrintTime_loop_eq:
  "parsePrintTime_loop lines =
     (case List.map_filter time_of_line lines of [] \<Rightarrow> js ''Unknown'' | t # ts \<Rightarrow> t)"
proof (induction lines)
  case Nil
  then show ?case by (simp add: List.map_filter_simps)
next
  case (Cons line lines)
  show ?case
  proof (cases "time_of_line line")
    case None
    have "parsePrintTime_loop (line # lines) = parsePrintTime_loop lines"
    proof (cases "sublist time_marker line")
      case True
      with None line_time [of line] have "regex_exec line = None" by simp
      with True show ?thesis by simp
    next
      case False
      then show ?thesis by simp
    qed
    with None Cons.IH show ?thesis by (simp add: List.map_filter_simps)
  next
    case (Some t)
    with line_time [of line] have sub: "sublist time_marker line"
      and "map_option trim (regex_exec line) = Some t"
      by (auto split: if_splits)
    then obtain r where "regex_exec line = Some r" "trim r = t" by auto
    with sub have "parsePrintTime_loop (line # lines) = t" by simp
    with Some show ?thesis by (simp add: List.map_filter_simps)
  qed
qed

text \<open>
  C7 (as amended). parsePrintTime scans the lines in order. A line gives a time when it
  contains the marker, an \<open>=\<close> follows the first occurrence of the marker, and after the
  first such \<open>=\<close> comes at least one character that is not a line terminator, with at most
  white space before it; the time is the trimmed text after that \<open>=\<close>, taken after the white
  space and up to the next line terminator. The result is the time of the first line that
  gives one, later lines being ignored. A line that contains the marker but gives no time
  is passed over. When no line gives a time, and so when no line contains the marker, the
  result is \<open>Unknown\<close>.
\<close>

theorem parsePrintTime_first_match:
  "parsePrintTime text =
     (case List.map_filter time_of_line (split_on 10 text) of
        [] \<Rightarrow> js ''Unknown''
      | t # ts \<Rightarrow> t) \<and>
   (\<forall>line. \<not> sublist time_marker line \<longrightarrow> time_of_line line = None) \<and>
   ((\<forall>line \<in> set (split_on 10 text). \<not> sublist time_marker line) \<longrightarrow>
      parsePrintTime text = js ''Unknown'')"
proof (intro conjI allI impI)
  show main: "parsePrintTime text =
     (case List.map_filter time_of_line (split_on 10 text) of [] \<Rightarrow> js ''Unknown'' | t # ts \<Rightarrow> t)"
    by (simp add: parsePrintTime_def parsePrintTime_loop_eq)
  show none: "time_of_line line = None" if "\<not> sublist time_marker line" for line
    using that line_time [of line] by simp
  assume "\<forall>line \<in> set (split_on 10 text). \<not> sublist time_marker line"
  then have "\<forall>line \<in> set (split_on 10 text). time_of_line line = None"
    using none by blast
  then have "List.map_filter time_of_line (split_on 10 text) = []"
    by (rule map_filter_all_None)
  with main show "parsePrintTime text = js ''Unknown''" by simp
qed

theorem parsePrintTime_first_match_witness:
  "parsePrintTime (js ''G1 X0'' @ [10] @ js ''; estimated printing time (normal mode) = 3h 12m'' @
                   [10] @ js ''; estimated printing time (silent mode) = 4h'' @ [10] @ js ''M84'')
     = js ''3h 12m'' \<and>
   \<not> sublist time_marker (js ''G1 X0'') \<and> \<not> sublist time_marker (js ''M84'') \<and>
   parsePrintTime (js ''G1 X0'' @ [10] @ js ''M84'') = js ''Unknown''"
proof -
  let ?T = "js ''G1 X0'' @ [10] @ js ''; estimated printing time (normal mode) = 3h 12m'' @
            [10] @ js ''; estimated printing time (silent mode) = 4h'' @ [10] @ js ''M84''"
  let ?U = "js ''G1 X0'' @ [10] @ js ''M84''"
  have lines: "split_on 10 ?T =
      [js ''G1 X0'', js ''; estimated printing time (normal mode) = 3h 12m'',
       js ''; estimated printing time (silent mode) = 4h'', js ''M84'']"
    by (simp add: split_on_def js_def)
  have l1: "time_of_line (js ''G1 X0'') = None"
    by (simp add: time_of_line_def text_eval)
  have l2: "time_of_line (js ''; estimated printing time (normal mode) = 3h 12m'') = Some (js ''3h 12m'')"
    by (simp add: time_of_line_def text_eval Let_def)
  from parsePrintTime_first_match [of ?T] have first: "parsePrintTime ?T = js ''3h 12m''"
    by (simp only: lines l1 l2 List.map_filter_simps option.case list.case)
  have lines2: "split_on 10 ?U = [js ''G1 X0'', js ''M84'']"
    by (simp add: split_on_def js_def)
  have none: "\<forall>line \<in> set (split_on 10 ?U). \<not> sublist time_marker line"
    unfolding lines2 by (simp add: text_eval)
  with parsePrintTime_first_match [of ?U] have "parsePrintTime ?U = js ''Unknown''"
    by blast
  with first none show ?thesis unfolding lines2 by simp
qed

text \<open>
  The first line that contains the marker has its \<open>=\<close> at the very end: the trimmed text
  after it is empty, which is what the claim promises, but the code passes the line over
  and takes the time of the second line.
\<close>

theorem parsePrintTime_counterexample:
  "parsePrintTime (js ''; estimated printing time ='' @ [10] @
                   js ''; estimated printing time = 5m'') = js ''5m'' \<and>
   spec_extractPrintTime (js ''; estimated printing time ='' @ [10] @
                          js ''; estimated printing time = 5m'') = []"
  by (simp add: parsePrintTime_def spec_extractPrintTime_def text_eval)

section \<open>Properties of the submit-configuration endpoint\<close>

text \<open>
  When the system refuses no deletion of the two temp files, neither is left when the
  handler answers, whatever the slicer did and on whichever path the handler ended.
\<close>

lemma catch_cleanup_removes:
  assumes "\<not> unlink_denied w inp" "\<not> unlink_denied w out"
  shows "fst (catch_cleanup w inp out fs) inp = None \<and> fst (catch_cleanup w inp out fs) out = None"
  using assms
  by (auto simp: catch_cleanup_def existsSync_def unlinkSync_def split: sum.splits if_splits)

lemma submit_try_Inr_removes:
  assumes "submit_try w toStr up cfg inp out fs = (Inr p, fs')"
  shows "fs' inp = None \<and> fs' out = None"
  using assms
  by (auto simp: submit_try_def unlinkSync_def Let_def
           split: sum.splits if_splits prod.splits option.splits)

lemma submit_configuration_removes:
  assumes "\<not> unlink_denied w inp" "\<not> unlink_denied w out"
    and "submit_configuration w toStr up cfg inp out fs = (resp, fs', entries)"
  shows "fs' inp = None \<and> fs' out = None"
proof (cases "submit_try w toStr up cfg inp out fs")
  case (Pair r fs1)
  show ?thesis
  proof (cases r)
    case (Inr p)
    with Pair assms(3) have "fs' = fs1" by (simp add: submit_configuration_def)
    with submit_try_Inr_removes [of w toStr up cfg inp out fs p fs1] Pair Inr
    show ?thesis by simp
  next
    case (Inl e)
    with Pair assms(3) have "fs' = fst (catch_cleanup w inp out fs1)"
      by (auto simp: submit_configuration_def split: prod.splits)
    with catch_cleanup_removes [OF assms(1,2)] show ?thesis by simp
  qed
qed

lemma submit_configuration_error_kept:
  assumes "submit_try w toStr up cfg inp out fs = (Inl e, fs1)"
  shows "fst (submit_configuration w toStr up cfg inp out fs) =
           Submit_error 500 (js ''PrusaSlicer processing failed: '' @ message e)"
  using assms by (simp add: submit_configuration_def split: prod.splits)




text \<open>
  C3. The claim says that both temp files are deleted on every exit path and that a failing
  deletion is logged and never replaces the primary outcome. Here the slicer succeeds and
  writes its output, and the system refuses to delete the temp input file: the success
  path deletes outside any \<open>try\<close> of its own, so the deletion error becomes the response
  (500 instead of the success), and the temp output file, which could be deleted, is left
  behind because the clean-up of the \<open>catch\<close> stops at the same refusal.
\<close>

theorem success_path_cleanup_failure:
  "submit_configuration
     \<lparr> write_denied = (\<lambda>p. False), unlink_denied = (\<lambda>p. p = js ''/tmp/input_1.stl''),
       slicer = (\<lambda>args fs.
         (Exec_ok [] [],
          fs(js ''/tmp/output_1.gcode'' := Some (ascii ''; estimated printing time = 5m'')))),
       uploadedFile_later =
         Some \<lparr> buffer = ascii ''solid'', filename = js ''cube.stl'', extension = js ''stl'' \<rparr> \<rparr>
     decimal_string
     \<lparr> buffer = ascii ''solid'', filename = js ''cube.stl'', extension = js ''stl'' \<rparr>
     \<lparr> material = js ''PLA'', materialType = js ''PLA'', nozzleSize = Fin (4/10),
       fillDensity = Fin 20, supportMaterial = False \<rparr>
     (js ''/tmp/input_1.stl'') (js ''/tmp/output_1.gcode'') (\<lambda>p. None)
   = (Submit_error 500
        (js ''PrusaSlicer processing failed: EPERM: operation not permitted, unlink '' @ [39] @
         js ''/tmp/input_1.stl'' @ [39]),
      (\<lambda>p. None)(js ''/tmp/input_1.stl'' := Some (ascii ''solid''),
                  js ''/tmp/output_1.gcode'' := Some (ascii ''; estimated printing time = 5m'')),
      [Cleanup_error (SystemError (js ''EPERM: operation not permitted, unlink '' @ [39] @
                                   js ''/tmp/input_1.stl'' @ [39])),
       Slicer_error (SystemError (js ''EPERM: operation not permitted, unlink '' @ [39] @
                                  js ''/tmp/input_1.stl'' @ [39]))])"
proof -
  let ?cfg = "\<lparr> material = js ''PLA'', materialType = js ''PLA'', nozzleSize = Fin (4/10),
       fillDensity = Fin 20, supportMaterial = False \<rparr>"
  have "material ?cfg \<notin> set Object_prototype_keys"
    by (simp add: Object_prototype_keys_def js_def)
  then obtain args where args: "generatePrusaCommand decimal_string ?cfg
      (js ''/tmp/input_1.stl'') (js ''/tmp/output_1.gcode'') = Inr args"
    using generatePrusaCommand_total by blast
  have ne: "js ''/tmp/input_1.stl'' \<noteq> js ''/tmp/output_1.gcode''" by (simp add: js_def)
  show ?thesis
    unfolding submit_configuration_def submit_try_def args
    using ne
    by (simp add: catch_cleanup_def run_slicer_def writeFileSync_def existsSync_def
          unlinkSync_def readFileSync_def message_def Let_def js_def)
qed

end
